theory Spec2Isabelle
  imports Main "HOL-Library.Sublist"
begin

section \<open>Strings of the dialogue engine\<close>

text \<open>
  The engine (\<^verbatim>\<open>services/aiService\<close>, second document of \<^verbatim>\<open>src/src/routes/health.ts\<close>)
  works on JavaScript strings. A \<^typ>\<open>string\<close> of this theory is a JavaScript string all of
  whose UTF-16 code units are below 256: the character \<open>c\<close> stands for the code unit
  \<open>of_char c\<close> (ASCII and the Latin-1 supplement). Lengths and indices count code units, as
  JavaScript's do. Strings with code units from 256 on are outside the model.
\<close>

definition upper_chars :: string where
  "upper_chars = ''ABCDEFGHIJKLMNOPQRSTUVWXYZ'' @
     [CHR 0xC0, CHR 0xC1, CHR 0xC2, CHR 0xC3, CHR 0xC4, CHR 0xC5, CHR 0xC6, CHR 0xC7,
      CHR 0xC8, CHR 0xC9, CHR 0xCA, CHR 0xCB, CHR 0xCC, CHR 0xCD, CHR 0xCE, CHR 0xCF,
      CHR 0xD0, CHR 0xD1, CHR 0xD2, CHR 0xD3, CHR 0xD4, CHR 0xD5, CHR 0xD6,
      CHR 0xD8, CHR 0xD9, CHR 0xDA, CHR 0xDB, CHR 0xDC, CHR 0xDD, CHR 0xDE]"

definition lower_chars :: string where
  "lower_chars = ''abcdefghijklmnopqrstuvwxyz'' @
     [CHR 0xE0, CHR 0xE1, CHR 0xE2, CHR 0xE3, CHR 0xE4, CHR 0xE5, CHR 0xE6, CHR 0xE7,
      CHR 0xE8, CHR 0xE9, CHR 0xEA, CHR 0xEB, CHR 0xEC, CHR 0xED, CHR 0xEE, CHR 0xEF,
      CHR 0xF0, CHR 0xF1, CHR 0xF2, CHR 0xF3, CHR 0xF4, CHR 0xF5, CHR 0xF6,
      CHR 0xF8, CHR 0xF9, CHR 0xFA, CHR 0xFB, CHR 0xFC, CHR 0xFD, CHR 0xFE]"

text \<open>\<^verbatim>\<open>String.prototype.toLowerCase\<close> on one code unit below 256: the letters A to Z and
  the Latin-1 capitals U+00C0 to U+00DE (but the multiplication sign U+00D7) move to their
  small forms, every other code unit stays.\<close>

definition lower_char :: "char \<Rightarrow> char" where
  "lower_char c = (case map_of (zip upper_chars lower_chars) c of Some d \<Rightarrow> d | None \<Rightarrow> c)"

definition toLowerCase :: "string \<Rightarrow> string" where
  "toLowerCase s = map lower_char s"

text \<open>The white space of \<^verbatim>\<open>trim\<close> and of the regular expression class \<^verbatim>\<open>\s\<close>, below 256:
  TAB, LF, VT, FF, CR, SPACE and NO-BREAK SPACE.\<close>

definition is_space :: "char \<Rightarrow> bool" where
  "is_space c = (c \<in> set [CHR 0x09, CHR 0x0A, CHR 0x0B, CHR 0x0C, CHR 0x0D, CHR 0x20, CHR 0xA0])"

definition is_letter :: "char \<Rightarrow> bool" where
  "is_letter c = (c \<in> set ''ABCDEFGHIJKLMNOPQRSTUVWXYZabcdefghijklmnopqrstuvwxyz'')"

text \<open>The class \<^verbatim>\<open>\w\<close>: \<^verbatim>\<open>[A-Za-z0-9_]\<close>.\<close>

definition is_word :: "char \<Rightarrow> bool" where
  "is_word c = (is_letter c \<or> c \<in> set ''0123456789_'')"

definition trim :: "string \<Rightarrow> string" where
  "trim s = rev (dropWhile is_space (rev (dropWhile is_space s)))"

text \<open>\<^verbatim>\<open>s.includes(p)\<close>: \<open>p\<close> occurs in \<open>s\<close> as a contiguous block.\<close>

fun str_includes :: "string \<Rightarrow> string \<Rightarrow> bool" where
  "str_includes [] p = (p = [])"
| "str_includes (c # cs) p = (prefix p (c # cs) \<or> str_includes cs p)"

text \<open>\<^verbatim>\<open>s.replace(/\s+/g, ' ')\<close>: every maximal run of white space becomes one space.
  The flag says that the character before was white space, already replaced.\<close>

fun collapse_from :: "bool \<Rightarrow> string \<Rightarrow> string" where
  "collapse_from in_run [] = []"
| "collapse_from in_run (c # cs) =
     (if is_space c then (if in_run then collapse_from True cs else CHR '' '' # collapse_from True cs)
      else c # collapse_from False cs)"

definition collapse_spaces :: "string \<Rightarrow> string" where
  "collapse_spaces s = collapse_from False s"

text \<open>\<^verbatim>\<open>s.replace(/[^\w\s\-'\.]/g, '')\<close>: only word characters, white space, hyphen,
  apostrophe and full stop are kept.\<close>

definition is_name_clean_char :: "char \<Rightarrow> bool" where
  "is_name_clean_char c = (is_word c \<or> is_space c \<or> c \<in> set [CHR ''-'', CHR 0x27, CHR ''.''])"

definition strip_name_chars :: "string \<Rightarrow> string" where
  "strip_name_chars s = filter is_name_clean_char s"

text \<open>\<^verbatim>\<open>s.split(sep)\<close> for a separator of one character; the result is never empty.\<close>

fun split_on :: "char \<Rightarrow> string \<Rightarrow> string list" where
  "split_on sep [] = [[]]"
| "split_on sep (c # cs) =
     (if c = sep then [] # split_on sep cs
      else (case split_on sep cs of [] \<Rightarrow> [[c]] | w # ws \<Rightarrow> (c # w) # ws))"

text \<open>\<^verbatim>\<open>xs.join(' ')\<close> on an array of strings.\<close>

fun join_space :: "string list \<Rightarrow> string" where
  "join_space [] = []"
| "join_space [x] = x"
| "join_space (x # y # ys) = x @ '' '' @ join_space (y # ys)"

section \<open>Enumerations of \<^verbatim>\<open>types\<close>\<close>

datatype TicketCategory =
  TECHNICAL | BILLING | ACCOUNT | FEATURE_REQUEST | BUG_REPORT | GENERAL | OTHER

text \<open>The string each member of \<^verbatim>\<open>TicketCategory\<close> is at run time.\<close>

fun category_value :: "TicketCategory \<Rightarrow> string" where
  "category_value TECHNICAL = ''technical''"
| "category_value BILLING = ''billing''"
| "category_value ACCOUNT = ''account''"
| "category_value FEATURE_REQUEST = ''feature_request''"
| "category_value BUG_REPORT = ''bug_report''"
| "category_value GENERAL = ''general''"
| "category_value OTHER = ''other''"

datatype ConversationStep =
  GREETING | COLLECT_NAME | COLLECT_ISSUE | CLARIFY_DETAILS | SUGGEST_CATEGORY
  | CONFIRM_CATEGORY | FINAL_CONFIRMATION | TICKET_CREATED | ERROR

section \<open>Category detection\<close>

text \<open>\<^verbatim>\<open>CATEGORY_PATTERNS\<close>, in the order \<^verbatim>\<open>Object.entries\<close> walks it (the order of
  declaration, since no key is an integer).\<close>

definition CATEGORY_PATTERNS :: "(TicketCategory \<times> string list) list" where
  "CATEGORY_PATTERNS =
    [(TECHNICAL,
       [''bug'', ''error'', ''crash'', ''broken'', ''not working'', ''issue'', ''problem'',
        ''glitch'', ''freeze'', ''slow'', ''performance'', ''loading'', ''timeout'',
        ''connection'', ''server'', ''database'', ''api'', ''sync'', ''refresh'']),
     (BILLING,
       [''payment'', ''charge'', ''billing'', ''invoice'', ''refund'', ''subscription'',
        ''price'', ''cost'', ''credit card'', ''transaction'', ''money'', ''plan'',
        ''upgrade'', ''downgrade'', ''cancel'', ''receipt'']),
     (ACCOUNT,
       [''login'', ''password'', ''access'', ''account'', ''profile'', ''settings'',
        ''email'', ''username'', ''forgot'', ''reset'', ''security'', ''verification'',
        ''signin'', ''logout'', ''permissions'']),
     (FEATURE_REQUEST,
       [''feature'', ''request'', ''suggestion'', ''improvement'', ''enhancement'',
        ''add'', ''new'', ''would like'', ''could you'', ''wish'', ''hope'',
        ''functionality'', ''option'', ''ability'']),
     (BUG_REPORT,
       [''bug'', ''error message'', ''unexpected'', ''wrong'', ''incorrect'',
        ''mistake'', ''fault'', ''defect'', ''glitch'', ''malfunction''])]"

text \<open>\<^verbatim>\<open>patterns.filter(pattern => lowerText.includes(pattern)).length\<close>\<close>

definition count_matches :: "string \<Rightarrow> string list \<Rightarrow> nat" where
  "count_matches lowerText patterns = length (filter (str_includes lowerText) patterns)"

text \<open>The body of the \<^verbatim>\<open>forEach\<close> callback, on the pair of the two variables
  \<^verbatim>\<open>maxMatches\<close> and \<^verbatim>\<open>detectedCategory\<close> it assigns.\<close>

fun detect_step ::
  "string \<Rightarrow> TicketCategory \<times> string list \<Rightarrow> nat \<times> TicketCategory \<Rightarrow> nat \<times> TicketCategory" where
  "detect_step lowerText (category, patterns) (maxMatches, detectedCategory) =
     (let matches = count_matches lowerText patterns
      in if matches > maxMatches then (matches, category) else (maxMatches, detectedCategory))"

definition detect_loop ::
  "string \<Rightarrow> (TicketCategory \<times> string list) list \<Rightarrow> nat \<times> TicketCategory \<Rightarrow> nat \<times> TicketCategory" where
  "detect_loop lowerText entries init = fold (detect_step lowerText) entries init"

definition detectCategory :: "string \<Rightarrow> TicketCategory" where
  "detectCategory text =
     (let lowerText = toLowerCase text;
          (maxMatches, detectedCategory) = detect_loop lowerText CATEGORY_PATTERNS (0, GENERAL)
      in if maxMatches > 0 then detectedCategory else GENERAL)"

text \<open>
  The detector as the specification words it: the count of every category, the greatest
  of them, and the earliest declared category that reaches it; GENERAL when no keyword of
  any category occurs.
\<close>

definition category_counts :: "string \<Rightarrow> (TicketCategory \<times> nat) list" where
  "category_counts text =
     map (\<lambda>(category, patterns). (category, count_matches (toLowerCase text) patterns))
       CATEGORY_PATTERNS"

definition greatest_count :: "(TicketCategory \<times> nat) list \<Rightarrow> nat" where
  "greatest_count counts = fold max (map snd counts) 0"

definition detectCategory_spec :: "string \<Rightarrow> TicketCategory" where
  "detectCategory_spec text =
     (let counts = category_counts text; best = greatest_count counts
      in if best = 0 then GENERAL
         else (case find (\<lambda>(category, n). n = best) counts of
                 Some (category, n) \<Rightarrow> category
               | None \<Rightarrow> GENERAL))"

section \<open>Affirmative and negative replies\<close>

definition affirmatives :: "string list" where
  "affirmatives =
    [''yes'', ''yeah'', ''yep'', ''yup'', ''sure'', ''correct'', ''right'', ''exactly'',
     ''that's right'', ''sounds good'', ''looks good'', ''ok'', ''okay'', ''k'',
     ''absolutely'', ''definitely'', ''of course'', ''perfect'', ''great'',
     ''let's do it'', ''lets do it'', ''go ahead'', ''proceed'', ''continue'',
     ''create it'', ''create the ticket'', ''make the ticket'', ''submit it'',
     ''confirm'', ''approved'', ''good to go'', ''all good'', ''that works'']"

definition negatives :: "string list" where
  "negatives =
    [''no'', ''nope'', ''nah'', ''not'', ''wrong'', ''incorrect'', ''different'',
     ''that's wrong'', ''not right'', ''not correct'', ''not quite'',
     ''don't'', ''dont'', ''stop'', ''cancel'', ''abort'', ''nevermind'',
     ''never mind'', ''wait'', ''hold on'', ''not yet'', ''not ready'']"

text \<open>The test both detectors apply to a phrase, with its three disjuncts as written.\<close>

definition phrase_hit :: "string \<Rightarrow> string \<Rightarrow> bool" where
  "phrase_hit lowerInput phrase =
     (lowerInput = phrase \<or> str_includes lowerInput phrase
      \<or> (length phrase > 3 \<and> str_includes lowerInput phrase))"

definition isAffirmative :: "string \<Rightarrow> bool" where
  "isAffirmative input = (let lowerInput = trim (toLowerCase input)
                          in list_ex (phrase_hit lowerInput) affirmatives)"

definition isNegative :: "string \<Rightarrow> bool" where
  "isNegative input = (let lowerInput = trim (toLowerCase input)
                       in list_ex (phrase_hit lowerInput) negatives)"

section \<open>Regular expressions, as the backtracking matcher runs them\<close>

text \<open>
  A piece of a regular expression maps the rest of the input to the rests that remain after
  each way of matching it, in the order in which the backtracking matcher tries them: the
  alternatives of a group from left to right, a greedy repetition from its longest run down,
  a lazy one from its shortest up. The first element of the list is what the matcher commits
  to; an empty list is a failure.
\<close>

type_synonym matcher = "string \<Rightarrow> string list"

definition lit :: "string \<Rightarrow> matcher" where
  "lit p s = (if prefix p s then [drop (length p) s] else [])"

text \<open>A literal of small ASCII letters under the flag \<^verbatim>\<open>i\<close>: a code unit below 256 matches a
  letter of the literal exactly when it is that letter or its capital.\<close>

definition lit_ci :: "string \<Rightarrow> matcher" where
  "lit_ci p s = (if prefix p (toLowerCase (take (length p) s)) then [drop (length p) s] else [])"

definition alt :: "matcher list \<Rightarrow> matcher" where
  "alt ms s = concat (map (\<lambda>m. m s) ms)"

definition seq :: "matcher \<Rightarrow> matcher \<Rightarrow> matcher" where
  "seq m1 m2 s = concat (map m2 (m1 s))"

text \<open>\<^verbatim>\<open>[class]+\<close> and \<^verbatim>\<open>[class]*\<close>, greedy: the longest run first.\<close>

definition plus :: "(char \<Rightarrow> bool) \<Rightarrow> matcher" where
  "plus P s = map (\<lambda>k. drop k s) (rev [1..<Suc (length (takeWhile P s))])"

definition star :: "(char \<Rightarrow> bool) \<Rightarrow> matcher" where
  "star P s = map (\<lambda>k. drop k s) (rev [0..<Suc (length (takeWhile P s))])"

text \<open>\<^verbatim>\<open>x?\<close>, greedy: with \<open>x\<close> first, then without.\<close>

definition opt :: "matcher \<Rightarrow> matcher" where
  "opt m s = m s @ [s]"

text \<open>\<^verbatim>\<open>$\<close> without the flag \<^verbatim>\<open>m\<close>: the end of the input.\<close>

definition eos :: matcher where
  "eos s = (if s = [] then [[]] else [])"

text \<open>\<^verbatim>\<open>\b\<close> between the character before the position (none at the start) and the rest.\<close>

definition word_boundary :: "char option \<Rightarrow> string \<Rightarrow> bool" where
  "word_boundary prev s =
     ((case prev of None \<Rightarrow> False | Some c \<Rightarrow> is_word c)
        \<noteq> (case s of [] \<Rightarrow> False | c # cs \<Rightarrow> is_word c))"

text \<open>\<^verbatim>\<open>regex.test(s)\<close> for a pattern with no anchor: some start position, from the left,
  matches. The test of one position gets the character before it, for \<^verbatim>\<open>\b\<close>.\<close>

fun search :: "(char option \<Rightarrow> string \<Rightarrow> bool) \<Rightarrow> char option \<Rightarrow> string \<Rightarrow> bool" where
  "search at prev [] = at prev []"
| "search at prev (c # cs) = (at prev (c # cs) \<or> search at (Some c) cs)"

text \<open>\<^verbatim>\<open>s.match(regex)[1]\<close> for a pattern with no anchor: the group of the first start
  position, from the left, at which the pattern matches; \<open>None\<close> is \<^verbatim>\<open>null\<close>.\<close>

fun first_match :: "(string \<Rightarrow> string list) \<Rightarrow> string \<Rightarrow> string option" where
  "first_match groups_at [] = (case groups_at [] of [] \<Rightarrow> None | g # gs \<Rightarrow> Some g)"
| "first_match groups_at (c # cs) =
     (case groups_at (c # cs) of [] \<Rightarrow> first_match groups_at cs | g # gs \<Rightarrow> Some g)"

text \<open>The same for a pattern that starts with \<^verbatim>\<open>^\<close>: position 0 only.\<close>

definition anchored_match :: "(string \<Rightarrow> string list) \<Rightarrow> string \<Rightarrow> string option" where
  "anchored_match groups_at s = (case groups_at s of [] \<Rightarrow> None | g # gs \<Rightarrow> Some g)"

section \<open>Name extraction\<close>

text \<open>The four \<^verbatim>\<open>sentencePatterns\<close>, tested on the trimmed input in lower case.\<close>

definition sentence_greeting :: "string \<Rightarrow> bool" where
  "sentence_greeting lowerInput =
     (alt (map lit [''hi'', ''hello'', ''hey'', ''good morning'', ''good afternoon'',
                    ''good evening'']) lowerInput \<noteq> [])"

definition sentence_intro :: "string \<Rightarrow> bool" where
  "sentence_intro lowerInput =
     search (\<lambda>prev s. word_boundary prev s \<and>
               seq (alt (map lit [''my name is'', ''i am'', ''i'm'', ''call me'', ''name's'']))
                   (plus is_space) s \<noteq> [])
       None lowerInput"

definition sentence_words :: "string \<Rightarrow> bool" where
  "sentence_words lowerInput =
     search (\<lambda>prev s. word_boundary prev s \<and>
               alt (map lit [''and'', ''but'', ''so'', ''because'', ''i need'', ''i want'',
                             ''please'', ''help'']) s \<noteq> [])
       None lowerInput"

definition sentence_punctuation :: "string \<Rightarrow> bool" where
  "sentence_punctuation lowerInput = list_ex (\<lambda>c. c \<in> set ''.!?'') lowerInput"

text \<open>\<^verbatim>\<open>isSentence\<close>: some pattern matches, or \<^verbatim>\<open>cleanInput.split(' ')\<close> has more than
  three parts.\<close>

definition is_sentence :: "string \<Rightarrow> bool" where
  "is_sentence input =
     (let cleanInput = trim input; lowerInput = toLowerCase cleanInput
      in (sentence_greeting lowerInput \<or> sentence_intro lowerInput \<or> sentence_words lowerInput
            \<or> sentence_punctuation lowerInput)
         \<or> length (split_on (CHR '' '') cleanInput) > 3)"

text \<open>The class \<^verbatim>\<open>[a-zA-Z\s\-'\.]\<close> of the name group.\<close>

definition is_name_char :: "char \<Rightarrow> bool" where
  "is_name_char c = (is_letter c \<or> is_space c \<or> c \<in> set [CHR ''-'', CHR 0x27, CHR ''.''])"

text \<open>What follows the name group: \<^verbatim>\<open>(?:\s+and|\s+,|\s*\.|$)\<close>, under the flag \<^verbatim>\<open>i\<close>.\<close>

definition name_end :: matcher where
  "name_end = alt [seq (plus is_space) (lit_ci ''and''), seq (plus is_space) (lit '',''),
                   seq (star is_space) (lit ''.''), eos]"

text \<open>The group \<^verbatim>\<open>([a-zA-Z\s\-'\.]{2,30}?)\<close> followed by \<open>name_end\<close>: lazy, so from 2 characters
  up to 30; the list holds the group of every way to match, in the matcher's order.\<close>

definition name_group :: "string \<Rightarrow> string list" where
  "name_group r =
     map (\<lambda>n. take n r)
       (filter (\<lambda>n. n \<le> length r \<and> list_all is_name_char (take n r) \<and> name_end (drop n r) \<noteq> [])
          [2..<31])"

text \<open>The two \<^verbatim>\<open>namePatterns\<close>: what stands before the group, then the group.\<close>

definition name_pattern1 :: "string \<Rightarrow> string list" where
  "name_pattern1 s =
     concat (map name_group
       (seq (alt (map lit_ci [''my name is'', ''i am'', ''i'm'', ''call me'', ''name's'']))
            (plus is_space) s))"

definition name_pattern2 :: "string \<Rightarrow> string list" where
  "name_pattern2 s =
     concat (map name_group
       (seq (alt (map lit_ci [''hi'', ''hello'', ''hey'']))
         (seq (opt (lit '',''))
           (seq (plus is_space)
             (seq (alt (map lit_ci [''my name is'', ''i am'', ''i'm''])) (plus is_space)))) s))"

record NameResult =
  name :: string
  isSentence :: bool
  needsClarification :: bool

text \<open>One turn of the loop over \<^verbatim>\<open>namePatterns\<close>: the cleaned group when the pattern matched
  and the cleaned group has 2 to 30 characters.\<close>

definition extracted_name :: "string option \<Rightarrow> string option" where
  "extracted_name m =
     (case m of
        None \<Rightarrow> None
      | Some g \<Rightarrow>
          (let extractedName = collapse_spaces (strip_name_chars (trim g))
           in if length extractedName \<ge> 2 \<and> length extractedName \<le> 30
              then Some extractedName else None))"

text \<open>\<^verbatim>\<open>cleanedName\<close>, of an input that is no sentence.\<close>

definition cleaned_name :: "string \<Rightarrow> string" where
  "cleaned_name input = take 50 (collapse_spaces (strip_name_chars (trim input)))"

definition extractNameFromInput :: "string \<Rightarrow> NameResult" where
  "extractNameFromInput input =
     (let cleanInput = trim input in
      if is_sentence input then
        (case extracted_name (first_match name_pattern1 cleanInput) of
           Some extractedName \<Rightarrow>
             \<lparr>name = extractedName, isSentence = True, needsClarification = True\<rparr>
         | None \<Rightarrow>
            (case extracted_name (anchored_match name_pattern2 cleanInput) of
               Some extractedName \<Rightarrow>
                 \<lparr>name = extractedName, isSentence = True, needsClarification = True\<rparr>
             | None \<Rightarrow> \<lparr>name = [], isSentence = True, needsClarification = True\<rparr>))
      else
        (let cleanedName = cleaned_name input
         in \<lparr>name = cleanedName, isSentence = False,
             needsClarification = (length cleanedName < 2)\<rparr>))"

section \<open>Email validation\<close>

text \<open>\<^verbatim>\<open>/^[^\s@]+@[^\s@]+\.[^\s@]+$/\<close>\<close>

definition is_email_char :: "char \<Rightarrow> bool" where
  "is_email_char c = (\<not> is_space c \<and> c \<noteq> CHR ''@'')"

definition emailRegex_test :: "string \<Rightarrow> bool" where
  "emailRegex_test s =
     (seq (plus is_email_char)
        (seq (lit ''@'')
          (seq (plus is_email_char)
            (seq (lit ''.'')
              (seq (plus is_email_char) eos)))) s \<noteq> [])"

section \<open>Conversation state\<close>

text \<open>A value of type \<^verbatim>\<open>any\<close>, as JSON carries it.\<close>

datatype jsany =
  JNull | JBool bool | JNum int | JStr string | JArr "jsany list" | JObj "(string \<times> jsany) list"

datatype MessageRole = USER | ASSISTANT | SYSTEM

record Message =
  msg_id :: string
  msg_role :: MessageRole
  msg_content :: string
  msg_timestamp :: string
  msg_metadata :: "(string \<times> jsany) list option"

text \<open>
  \<^verbatim>\<open>additionalDetails\<close> is the one field of the collected data that holds an object the engine
  writes to: an array, which \<^verbatim>\<open>{ ...collectedData }\<close> copies by reference. Arrays therefore
  live in a store, in the order of their allocation, and the field holds a reference (an
  index into the store). JavaScript has no dangling references: the references of a
  conversation point into the store it comes with.

  The field is declared \<^verbatim>\<open>string[]\<close>, but the route fills \<^verbatim>\<open>collectedData\<close> from the database
  \<^verbatim>\<open>as any\<close>, and the engine's \<^verbatim>\<open>catch\<close> block is there for a malformed shape. So the field
  may also hold a JSON value that is not an array, on which \<^verbatim>\<open>push\<close> and \<^verbatim>\<open>join\<close> are
  \<^verbatim>\<open>undefined\<close> and calling them throws a TypeError. The other fields are strings, as
  declared; the engine calls no method on them.
\<close>

type_synonym ref = nat

type_synonym store = "string list list"

datatype nonarray =
  NNull | NBool bool | NNum int | NStr string | NObj "(string \<times> jsany) list"

datatype details = Array ref | NotArray nonarray

record CollectedData =
  userName :: "string option"
  userEmail :: "string option"
  issueDescription :: "string option"
  issueTitle :: "string option"
  suggestedCategory :: "string option"
  confirmedCategory :: "string option"
  additionalDetails :: "details option"
  potentialName :: "string option"

record ConversationState =
  id_c :: string
  currentStep :: ConversationStep
  collectedData :: CollectedData
  messages :: "Message list"
  isComplete :: bool
  createdTicketId :: "string option"
  startedAt :: string
  completedAt :: "string option"

datatype ResponseType =
  question | clarification | category_suggestion | confirmation | success | error | typing

text \<open>
  The \<^verbatim>\<open>content\<close> of a response is one of the engine's fixed texts with the values it
  interpolates. Two of the texts hold characters beyond code unit 255, so a content is kept
  as the template and its arguments; rendering it calls nothing that can throw (a template
  literal writes \<^verbatim>\<open>undefined\<close> for an absent value, \<^verbatim>\<open>getCategoryDisplayName\<close> falls back to
  \<^verbatim>\<open>'Unknown'\<close>).
\<close>

datatype prompt =
    NAME_CONFIRM string
  | NAME_FIRST
  | NAME_TOO_SHORT
  | NAME_AGAIN
  | COLLECT_ISSUE_prompt string
  | ISSUE_TOO_SHORT
  | CLARIFY_DETAILS_prompt
  | DETAILS_TOO_SHORT
  | SUGGEST_CATEGORY_prompt TicketCategory
  | COLLECT_EMAIL_prompt
  | FINAL_CONFIRMATION_prompt "string option" "string option" "string option" "string option"
  | EMAIL_INVALID
  | CREATING_TICKET
  | START_OVER
  | ERROR_prompt

record AIResponse =
  type_r :: ResponseType
  content :: prompt
  nextStep :: "ConversationStep option"
  suggestions :: "string list option"
  categoryOptions :: "string list option"
  requiresInput :: bool
  metadata :: "(string \<times> jsany) list option"

record AIProcessResult =
  assistantResponse :: AIResponse
  updatedConversation :: ConversationState
  suggestedCategory_r :: "string option"

datatype exn = TypeError

subsection \<open>JavaScript's tests and conversions\<close>

text \<open>\<^verbatim>\<open>!!v\<close> for an optional string: \<^verbatim>\<open>undefined\<close> and the empty string are falsy.\<close>

definition truthy :: "string option \<Rightarrow> bool" where
  "truthy v = (case v of None \<Rightarrow> False | Some s \<Rightarrow> s \<noteq> [])"

fun truthy_nonarray :: "nonarray \<Rightarrow> bool" where
  "truthy_nonarray NNull = False"
| "truthy_nonarray (NBool b) = b"
| "truthy_nonarray (NNum n) = (n \<noteq> 0)"
| "truthy_nonarray (NStr s) = (s \<noteq> [])"
| "truthy_nonarray (NObj kvs) = True"

definition details_truthy :: "details option \<Rightarrow> bool" where
  "details_truthy d =
     (case d of None \<Rightarrow> False | Some (Array r) \<Rightarrow> True | Some (NotArray v) \<Rightarrow> truthy_nonarray v)"

text \<open>An optional string inside a template literal.\<close>

definition str_of :: "string option \<Rightarrow> string" where
  "str_of v = (case v of None \<Rightarrow> ''undefined'' | Some s \<Rightarrow> s)"

text \<open>\<^verbatim>\<open>v || fallback\<close> on an optional string.\<close>

definition or_else :: "string option \<Rightarrow> string \<Rightarrow> string" where
  "or_else v fallback = (case v of None \<Rightarrow> fallback | Some s \<Rightarrow> (if s = [] then fallback else s))"

subsection \<open>The store of arrays\<close>

text \<open>A reference below the length of the store points to its array. The model is total, so
  it also says what a reference outside the store reads (the empty array) and that a push
  through it is lost; no conversation of a JavaScript program holds such a reference.\<close>

definition alloc :: "string list \<Rightarrow> store \<Rightarrow> ref \<times> store" where
  "alloc xs h = (length h, h @ [xs])"

definition array_at :: "store \<Rightarrow> ref \<Rightarrow> string list" where
  "array_at h r = (if r < length h then h ! r else [])"

text \<open>\<^verbatim>\<open>array.push(x)\<close>: the array the reference points to grows in place.\<close>

definition push :: "store \<Rightarrow> ref \<Rightarrow> string \<Rightarrow> store" where
  "push h r x = h[r := array_at h r @ [x]]"

section \<open>The step machine\<close>

fun getNextStep :: "ConversationStep \<Rightarrow> string \<Rightarrow> CollectedData \<Rightarrow> ConversationStep" where
  "getNextStep GREETING userInput data = COLLECT_ISSUE"
| "getNextStep COLLECT_ISSUE userInput data = CLARIFY_DETAILS"
| "getNextStep CLARIFY_DETAILS userInput data = SUGGEST_CATEGORY"
| "getNextStep SUGGEST_CATEGORY userInput data = CONFIRM_CATEGORY"
| "getNextStep CONFIRM_CATEGORY userInput data =
     (if \<not> truthy (userEmail data) then COLLECT_NAME else FINAL_CONFIRMATION)"
| "getNextStep COLLECT_NAME userInput data = FINAL_CONFIRMATION"
| "getNextStep FINAL_CONFIRMATION userInput data = TICKET_CREATED"
| "getNextStep TICKET_CREATED userInput data = ERROR"
| "getNextStep ERROR userInput data = ERROR"

section \<open>The turn processor\<close>

text \<open>A response with the properties a handler writes; \<^verbatim>\<open>categoryOptions\<close> and \<^verbatim>\<open>metadata\<close>
  are absent unless set.\<close>

definition response ::
  "ResponseType \<Rightarrow> prompt \<Rightarrow> ConversationStep option \<Rightarrow> string list option \<Rightarrow> bool \<Rightarrow> AIResponse" where
  "response t c n sugg req =
     \<lparr>type_r = t, content = c, nextStep = n, suggestions = sugg, categoryOptions = None,
      requiresInput = req, metadata = None\<rparr>"

text \<open>What a \<^verbatim>\<open>case\<close> of the \<^verbatim>\<open>switch\<close> leaves in the variables \<^verbatim>\<open>updatedData\<close>,
  \<^verbatim>\<open>aiResponse\<close>, \<^verbatim>\<open>nextStep\<close> and \<^verbatim>\<open>suggestedCategory\<close>.\<close>

type_synonym handled = "CollectedData \<times> AIResponse \<times> ConversationStep \<times> string option"

text \<open>\<^verbatim>\<open>case ConversationStep.GREETING\<close>; \<open>current\<close> is \<^verbatim>\<open>currentStep\<close>.\<close>

definition greeting_case :: "string \<Rightarrow> ConversationStep \<Rightarrow> CollectedData \<Rightarrow> handled" where
  "greeting_case userInput current updatedData =
     (let nameResult = extractNameFromInput userInput in
      if needsClarification nameResult then
        (if name nameResult \<noteq> [] \<and> isSentence nameResult then
           (updatedData\<lparr>potentialName := Some (name nameResult)\<rparr>,
            response clarification (NAME_CONFIRM (name nameResult)) None
              (Some [''Yes, that's correct'', ''No, my name is...'']) True,
            current, None)
         else
           (updatedData,
            response question (if isSentence nameResult then NAME_FIRST else NAME_TOO_SHORT)
              None None True,
            current, None))
      else if truthy (potentialName updatedData)
              \<and> (isAffirmative userInput \<or> isNegative userInput) then
        (if isAffirmative userInput then
           (let data = updatedData\<lparr>userName := potentialName updatedData, potentialName := None\<rparr>;
                next = getNextStep current userInput data
            in (data,
                response question (COLLECT_ISSUE_prompt (str_of (userName data))) (Some next)
                  None True,
                next, None))
         else
           (updatedData\<lparr>potentialName := None\<rparr>,
            response question NAME_AGAIN None None True,
            current, None))
      else
        (let data = updatedData\<lparr>userName := Some (name nameResult),
                      potentialName :=
                        (if truthy (potentialName updatedData) then None
                         else potentialName updatedData)\<rparr>;
             next = getNextStep current userInput data
         in (data,
             response question (COLLECT_ISSUE_prompt (str_of (userName data))) (Some next)
               None True,
             next, None)))"

text \<open>\<^verbatim>\<open>case ConversationStep.COLLECT_ISSUE\<close>; first its \<^verbatim>\<open>cleanedIssue\<close>.\<close>

definition cleaned_issue :: "string \<Rightarrow> string" where
  "cleaned_issue userInput = take 1000 (collapse_spaces (trim userInput))"

definition collect_issue_case :: "string \<Rightarrow> ConversationStep \<Rightarrow> CollectedData \<Rightarrow> handled" where
  "collect_issue_case userInput current updatedData =
     (let cleanedIssue = cleaned_issue userInput in
      if length cleanedIssue < 10 then
        (updatedData, response question ISSUE_TOO_SHORT None None True, current, None)
      else
        (let data = updatedData\<lparr>
               issueDescription := Some cleanedIssue,
               issueTitle :=
                 Some (or_else (Some (take 100 (hd (split_on (CHR ''.'') cleanedIssue))))
                         ''Support Request'')\<rparr>;
             next = getNextStep current userInput data
         in (data, response question CLARIFY_DETAILS_prompt (Some next) None True, next, None)))"

text \<open>
  \<^verbatim>\<open>case ConversationStep.CLARIFY_DETAILS\<close>, the one case that works on the store. A falsy
  \<^verbatim>\<open>additionalDetails\<close> is replaced by a new empty array; \<^verbatim>\<open>push\<close> and \<^verbatim>\<open>join\<close> then act on the
  array the field points to, or throw when the field holds a value that is no array. The
  exception comes with the store as it is when thrown. First the step's \<^verbatim>\<open>cleanedDetails\<close>.
\<close>

definition cleaned_details :: "string \<Rightarrow> string" where
  "cleaned_details userInput = take 500 (collapse_spaces (trim userInput))"

definition clarify_details_case ::
  "string \<Rightarrow> ConversationStep \<Rightarrow> CollectedData \<Rightarrow> store
     \<Rightarrow> (exn \<times> store) + (handled \<times> store)" where
  "clarify_details_case userInput current updatedData h =
     (let cleanedDetails = cleaned_details userInput;
          skip = str_includes (toLowerCase userInput) ''skip'' in
      if length cleanedDetails < 5 \<and> \<not> skip then
        Inr ((updatedData, response question DETAILS_TOO_SHORT None None True, current, None), h)
      else
        (let (data1, h1) =
               (if \<not> details_truthy (additionalDetails updatedData)
                then (let (r, h') = alloc [] h
                      in (updatedData\<lparr>additionalDetails := Some (Array r)\<rparr>, h'))
                else (updatedData, h))
         in case additionalDetails data1 of
              Some (Array r) \<Rightarrow>
                (let h2 = (if \<not> skip \<and> length cleanedDetails \<ge> 5
                           then push h1 r cleanedDetails else h1);
                     allText = str_of (issueDescription data1) @ '' ''
                                 @ join_space (array_at h2 r);
                     detectedCategory = detectCategory allText;
                     data2 = data1\<lparr>suggestedCategory := Some (category_value detectedCategory)\<rparr>;
                     next = getNextStep current userInput data2
                 in Inr ((data2,
                          response category_suggestion (SUGGEST_CATEGORY_prompt detectedCategory)
                            (Some next) (Some [''Yes, that's correct'', ''No, different category''])
                            True,
                          next, Some (category_value detectedCategory)), h2))
            | _ \<Rightarrow> Inl (TypeError, h1)))"

text \<open>\<^verbatim>\<open>case ConversationStep.SUGGEST_CATEGORY\<close>\<close>

definition suggest_category_case ::
  "string \<Rightarrow> ConversationStep \<Rightarrow> CollectedData \<Rightarrow> handled" where
  "suggest_category_case userInput current updatedData =
     (let (data, next) =
            (if isAffirmative userInput then
               (let d = updatedData\<lparr>confirmedCategory := suggestedCategory updatedData\<rparr>
                in (d, getNextStep current userInput d))
             else if isNegative userInput then
               (let d = updatedData\<lparr>confirmedCategory := Some (category_value GENERAL)\<rparr>
                in (d, getNextStep current userInput d))
             else
               (let mentionedCategory = detectCategory userInput;
                    d = updatedData\<lparr>confirmedCategory := Some (category_value mentionedCategory)\<rparr>
                in (d, getNextStep current userInput d)))
      in if \<not> truthy (userEmail data) then
           (data, response question COLLECT_EMAIL_prompt (Some COLLECT_NAME) None True,
            COLLECT_NAME, None)
         else
           (data,
            response confirmation
              (FINAL_CONFIRMATION_prompt (userName data) (issueDescription data)
                 (confirmedCategory data) (userEmail data))
              (Some next) (Some [''Yes, create the ticket'', ''No, let me modify something''])
              True,
            next, None))"

text \<open>\<^verbatim>\<open>case ConversationStep.COLLECT_NAME\<close>: the step that collects the email; first its
  \<^verbatim>\<open>cleanedEmail\<close>.\<close>

definition cleaned_email :: "string \<Rightarrow> string" where
  "cleaned_email userInput = toLowerCase (trim userInput)"

definition collect_name_case :: "string \<Rightarrow> ConversationStep \<Rightarrow> CollectedData \<Rightarrow> handled" where
  "collect_name_case userInput current updatedData =
     (let cleanedEmail = cleaned_email userInput in
      if emailRegex_test cleanedEmail then
        (let data = updatedData\<lparr>userEmail := Some cleanedEmail\<rparr>;
             next = getNextStep current userInput data
         in (data,
             response confirmation
               (FINAL_CONFIRMATION_prompt (userName data) (issueDescription data)
                  (confirmedCategory data) (userEmail data))
               (Some next) (Some [''Yes, create the ticket'', ''No, let me modify something''])
               True,
             next, None))
      else
        (updatedData, response question EMAIL_INVALID None None True, current, None))"

text \<open>\<^verbatim>\<open>case ConversationStep.FINAL_CONFIRMATION\<close>\<close>

definition final_confirmation_case ::
  "string \<Rightarrow> ConversationStep \<Rightarrow> CollectedData \<Rightarrow> handled" where
  "final_confirmation_case userInput current updatedData =
     (if isAffirmative userInput then
        (updatedData\<lparr>issueTitle := Some (or_else (issueTitle updatedData) ''Support Request'')\<rparr>,
         (response success CREATING_TICKET (Some TICKET_CREATED) None False)
           \<lparr>metadata := Some [(''shouldCreateTicket'', JBool True)]\<rparr>,
         TICKET_CREATED, None)
      else
        (updatedData, response question START_OVER (Some GREETING) None True, GREETING, None))"

text \<open>\<^verbatim>\<open>default\<close>\<close>

definition default_case :: "CollectedData \<Rightarrow> handled" where
  "default_case updatedData =
     (updatedData, response error ERROR_prompt (Some ERROR) None True, ERROR, None)"

text \<open>The \<^verbatim>\<open>switch\<close> on \<^verbatim>\<open>currentStep\<close>.\<close>

definition switch_step ::
  "string \<Rightarrow> ConversationStep \<Rightarrow> CollectedData \<Rightarrow> store \<Rightarrow> (exn \<times> store) + (handled \<times> store)" where
  "switch_step userInput current updatedData h =
     (case current of
        GREETING \<Rightarrow> Inr (greeting_case userInput current updatedData, h)
      | COLLECT_ISSUE \<Rightarrow> Inr (collect_issue_case userInput current updatedData, h)
      | CLARIFY_DETAILS \<Rightarrow> clarify_details_case userInput current updatedData h
      | SUGGEST_CATEGORY \<Rightarrow> Inr (suggest_category_case userInput current updatedData, h)
      | COLLECT_NAME \<Rightarrow> Inr (collect_name_case userInput current updatedData, h)
      | FINAL_CONFIRMATION \<Rightarrow> Inr (final_confirmation_case userInput current updatedData, h)
      | _ \<Rightarrow> Inr (default_case updatedData, h))"

text \<open>
  The end of the \<^verbatim>\<open>try\<close> block: the returned object. \<open>now\<close> is what
  \<^verbatim>\<open>new Date().toISOString()\<close> returns during the call. The spread \<^verbatim>\<open>...conversation\<close> carries
  every field that is not written here.
\<close>

fun build_result :: "string \<Rightarrow> ConversationState \<Rightarrow> handled \<Rightarrow> AIProcessResult" where
  "build_result now conversation (data, aiResponse, next, suggested) =
     \<lparr>assistantResponse = aiResponse,
      updatedConversation = conversation\<lparr>
        currentStep := next,
        collectedData := data,
        isComplete := (next = TICKET_CREATED),
        completedAt := (if next = TICKET_CREATED then Some now else None)\<rparr>,
      suggestedCategory_r = suggested\<rparr>"

text \<open>
  The \<^verbatim>\<open>try\<close> block of \<^verbatim>\<open>processAIMessage\<close>. \<^verbatim>\<open>{ ...collectedData }\<close> is a new object with the
  fields of the caller's: the record value itself, whose \<^verbatim>\<open>additionalDetails\<close> is the same
  reference. The caller's \<^verbatim>\<open>conversation\<close> and \<^verbatim>\<open>collectedData\<close> objects are only read; every
  assignment goes to \<^verbatim>\<open>updatedData\<close> or, through \<^verbatim>\<open>push\<close>, to the array in the store.
\<close>

definition try_block ::
  "string \<Rightarrow> string \<Rightarrow> ConversationState \<Rightarrow> store
     \<Rightarrow> (exn \<times> store) + (AIProcessResult \<times> store)" where
  "try_block now userInput conversation h =
     (let updatedData = collectedData conversation in
      case switch_step userInput (currentStep conversation) updatedData h of
        Inl thrown \<Rightarrow> Inl thrown
      | Inr (out, h') \<Rightarrow> Inr (build_result now conversation out, h'))"

text \<open>The \<^verbatim>\<open>catch\<close> block.\<close>

definition catch_block :: "ConversationState \<Rightarrow> AIProcessResult" where
  "catch_block conversation =
     \<lparr>assistantResponse = response error ERROR_prompt (Some ERROR) None True,
      updatedConversation = conversation\<lparr>currentStep := ERROR\<rparr>,
      suggestedCategory_r = None\<rparr>"

text \<open>\<^verbatim>\<open>processAIMessage\<close>: the result the returned promise resolves to, and the store after
  the call.\<close>

definition processAIMessage ::
  "string \<Rightarrow> string \<Rightarrow> ConversationState \<Rightarrow> store \<Rightarrow> AIProcessResult \<times> store" where
  "processAIMessage now userInput conversation h =
     (case try_block now userInput conversation h of
        Inr done \<Rightarrow> done
      | Inl (thrown, h') \<Rightarrow> (catch_block conversation, h'))"

text \<open>The three parts of a call's outcome: the result, its conversation, the store after.\<close>

abbreviation returned ::
  "string \<Rightarrow> string \<Rightarrow> ConversationState \<Rightarrow> store \<Rightarrow> AIProcessResult" where
  "returned now userInput conversation h \<equiv> fst (processAIMessage now userInput conversation h)"

abbreviation returned_state ::
  "string \<Rightarrow> string \<Rightarrow> ConversationState \<Rightarrow> store \<Rightarrow> ConversationState" where
  "returned_state now userInput conversation h \<equiv>
     updatedConversation (fst (processAIMessage now userInput conversation h))"

abbreviation store_after :: "string \<Rightarrow> string \<Rightarrow> ConversationState \<Rightarrow> store \<Rightarrow> store" where
  "store_after now userInput conversation h \<equiv> snd (processAIMessage now userInput conversation h)"

text \<open>The call takes the exception path: the \<^verbatim>\<open>try\<close> block throws.\<close>

definition throws :: "string \<Rightarrow> string \<Rightarrow> ConversationState \<Rightarrow> store \<Rightarrow> bool" where
  "throws now userInput conversation h =
     (case try_block now userInput conversation h of Inl thrown \<Rightarrow> True | Inr done \<Rightarrow> False)"

text \<open>Successive calls, each on the conversation and the store the call before returned;
  a call is the pair of its clock reading and its user input.\<close>

definition turn ::
  "string \<times> string \<Rightarrow> ConversationState \<times> store \<Rightarrow> ConversationState \<times> store" where
  "turn call s =
     (case call of (now, userInput) \<Rightarrow>
        (case s of (conversation, h) \<Rightarrow>
           (returned_state now userInput conversation h,
            store_after now userInput conversation h)))"

fun successive_calls ::
  "(string \<times> string) list \<Rightarrow> ConversationState \<times> store \<Rightarrow> (ConversationState \<times> store) list" where
  "successive_calls [] s = []"
| "successive_calls (call # calls) s = turn call s # successive_calls calls (turn call s)"

text \<open>The collected data \<^verbatim>\<open>{}\<close> of a new conversation.\<close>

definition empty_data :: CollectedData where
  "empty_data = \<lparr>userName = None, userEmail = None, issueDescription = None, issueTitle = None,
                  suggestedCategory = None, confirmedCategory = None, additionalDetails = None,
                  potentialName = None\<rparr>"

subsection \<open>Conversations to run the engine on\<close>

definition example_messages :: "Message list" where
  "example_messages =
     [\<lparr>msg_id = ''m1'', msg_role = USER, msg_content = ''hello'',
       msg_timestamp = ''2024-05-01T09:58:00.000Z'', msg_metadata = None\<rparr>]"

text \<open>Collected data as they stand before the final confirmation; the details are the
  array at reference 0 of \<open>example_store\<close>.\<close>

definition example_data :: CollectedData where
  "example_data =
     \<lparr>userName = Some ''Alice'', userEmail = Some ''alice@example.com'',
      issueDescription = Some ''My app crashes on login'',
      issueTitle = Some ''My app crashes on login'',
      suggestedCategory = Some ''technical'', confirmedCategory = Some ''technical'',
      additionalDetails = Some (Array 0), potentialName = None\<rparr>"

definition example_store :: store where
  "example_store = [[''it happens daily'']]"

definition example_conversation :: "ConversationStep \<Rightarrow> CollectedData \<Rightarrow> ConversationState" where
  "example_conversation step data =
     \<lparr>id_c = ''7f9c2e4a'', currentStep = step, collectedData = data,
      messages = example_messages, isComplete = False, createdTicketId = None,
      startedAt = ''2024-05-01T09:58:00.000Z'', completedAt = None\<rparr>"

text \<open>A conversation whose ticket has been created.\<close>

definition completed_conversation :: ConversationState where
  "completed_conversation =
     (example_conversation TICKET_CREATED example_data)\<lparr>
        isComplete := True, createdTicketId := Some ''t-1001'',
        completedAt := Some ''2024-05-01T10:00:00.000Z''\<rparr>"

text \<open>Two runs of six calls from a new conversation. In the first the name has two
  characters, L and e with circumflex (U+00EA); in the second the issue description has
  ten characters, two of them adjacent spaces.\<close>

definition short_name_calls :: "(string \<times> string) list" where
  "short_name_calls =
     [(''2024-05-01T10:00:00.000Z'', [CHR ''L'', CHR 0xEA]),
      (''2024-05-01T10:01:00.000Z'', ''My app crashes on login''),
      (''2024-05-01T10:02:00.000Z'', ''skip''),
      (''2024-05-01T10:03:00.000Z'', ''yes''),
      (''2024-05-01T10:04:00.000Z'', ''alice@example.com''),
      (''2024-05-01T10:05:00.000Z'', ''yes'')]"

definition short_issue_calls :: "(string \<times> string) list" where
  "short_issue_calls =
     [(''2024-05-01T10:00:00.000Z'', ''Alice''),
      (''2024-05-01T10:01:00.000Z'', ''no  signal''),
      (''2024-05-01T10:02:00.000Z'', ''skip''),
      (''2024-05-01T10:03:00.000Z'', ''yes''),
      (''2024-05-01T10:04:00.000Z'', ''alice@example.com''),
      (''2024-05-01T10:05:00.000Z'', ''yes'')]"

text \<open>How far along the way to a ticket a step is. A call moves a conversation at most one
  place further (lemma \<open>step_rank_turn\<close>).\<close>

fun step_rank :: "ConversationStep \<Rightarrow> nat" where
  "step_rank GREETING = 0"
| "step_rank COLLECT_ISSUE = 1"
| "step_rank CLARIFY_DETAILS = 2"
| "step_rank SUGGEST_CATEGORY = 3"
| "step_rank CONFIRM_CATEGORY = 4"
| "step_rank COLLECT_NAME = 4"
| "step_rank FINAL_CONFIRMATION = 5"
| "step_rank TICKET_CREATED = 6"
| "step_rank ERROR = 0"

text \<open>Collected data of a malformed shape: \<^verbatim>\<open>additionalDetails\<close> holds a string.\<close>

definition malformed_data :: CollectedData where
  "malformed_data = example_data\<lparr>additionalDetails := Some (NotArray (NStr ''none''))\<rparr>"

definition patterns_of :: "TicketCategory \<Rightarrow> string list" where
  "patterns_of category = (case map_of CATEGORY_PATTERNS category of Some ps \<Rightarrow> ps | None \<Rightarrow> [])"

section \<open>The detector returns the earliest category of greatest count\<close>

definition counts_of ::
  "string \<Rightarrow> (TicketCategory \<times> string list) list \<Rightarrow> (TicketCategory \<times> nat) list" where
  "counts_of t es = map (\<lambda>(category, patterns). (category, count_matches t patterns)) es"

definition pick :: "nat \<Rightarrow> (TicketCategory \<times> nat) list \<Rightarrow> TicketCategory \<Rightarrow> TicketCategory" where
  "pick k cs d = (case find (\<lambda>(category, n). n = k) cs of Some (c, n) \<Rightarrow> c | None \<Rightarrow> d)"

lemma fold_max_ge: "m \<le> fold max ns (m::nat)"
proof (induction ns arbitrary: m)
  case Nil
  show ?case by simp
next
  case (Cons n ns)
  have "m \<le> max n m" by simp
  also have "\<dots> \<le> fold max ns (max n m)" by (rule Cons.IH)
  finally show ?case by simp
qed

lemma fold_max_mono: "a \<le> b \<Longrightarrow> fold max ns (a::nat) \<le> fold max ns b"
  by (induction ns arbitrary: a b) (auto simp: max.coboundedI2)

lemma fold_max_ge_elem: "n \<in> set ns \<Longrightarrow> n \<le> fold max ns (m::nat)"
proof (induction ns arbitrary: m)
  case Nil
  then show ?case by simp
next
  case (Cons x xs)
  show ?case
  proof (cases "n = x")
    case True
    have "n \<le> max x m" using True by simp
    also have "\<dots> \<le> fold max xs (max x m)" by (rule fold_max_ge)
    finally show ?thesis by simp
  next
    case False
    with Cons.prems have "n \<in> set xs" by simp
    then show ?thesis by (simp add: Cons.IH)
  qed
qed

lemma fold_max_mem: "fold max ns (m::nat) = m \<or> fold max ns m \<in> set ns"
proof (induction ns arbitrary: m)
  case Nil
  show ?case by simp
next
  case (Cons n ns)
  from Cons.IH[of "max n m"] show ?case by (auto simp: max_def split: if_splits)
qed

lemma pick_Cons: "pick k ((c, n) # cs) d = (if n = k then c else pick k cs d)"
  by (simp add: pick_def)

lemma pick_found: "k \<in> snd ` set cs \<Longrightarrow> pick k cs d = pick k cs d'"
  by (induction cs) (auto simp: pick_def)

lemma pick_in: "k \<in> snd ` set cs \<Longrightarrow> pick k cs d \<in> fst ` set cs"
  by (induction cs) (auto simp: pick_def)

lemma pick_default:
  assumes "m < fold max (map snd cs) m"
  shows "pick (fold max (map snd cs) m) cs d = pick (fold max (map snd cs) m) cs d'"
proof -
  from fold_max_mem[of "map snd cs" m] assms have "fold max (map snd cs) m \<in> snd ` set cs"
    by auto
  then show ?thesis by (rule pick_found)
qed

lemma counts_of_Cons: "counts_of t ((c, ps) # es) = (c, count_matches t ps) # counts_of t es"
  by (simp add: counts_of_def)

lemma detect_loop_Cons:
  "detect_loop t ((c, ps) # es) (m, d) =
     detect_loop t es (if count_matches t ps > m then (count_matches t ps, c) else (m, d))"
  by (simp add: detect_loop_def Let_def)

text \<open>What the loop leaves in its two variables, for any table and any start.\<close>

lemma detect_loop_spec:
  "detect_loop t es (m, d) =
     (fold max (map snd (counts_of t es)) m,
      if fold max (map snd (counts_of t es)) m > m
      then pick (fold max (map snd (counts_of t es)) m) (counts_of t es) d else d)"
proof (induction es arbitrary: m d)
  case Nil
  then show ?case by (simp add: detect_loop_def counts_of_def)
next
  case (Cons e es)
  obtain c ps where e: "e = (c, ps)" by (cases e)
  let ?n = "count_matches t ps"
  let ?ns = "map snd (counts_of t es)"
  show ?case
  proof (cases "?n > m")
    case True
    then have mx: "max ?n m = ?n" by simp
    have ge: "?n \<le> fold max ?ns ?n" by (rule fold_max_ge)
    show ?thesis
    proof (cases "fold max ?ns ?n > ?n")
      case big: True
      with True show ?thesis
        unfolding e detect_loop_Cons counts_of_Cons
        by (simp add: Cons.IH mx pick_Cons pick_default[of _ _ c d])
    next
      case False
      with ge have eq: "fold max ?ns ?n = ?n" by simp
      with True show ?thesis
        unfolding e detect_loop_Cons counts_of_Cons
        by (simp add: Cons.IH mx pick_Cons)
    qed
  next
    case False
    then have mx: "max ?n m = m" by simp
    have ge: "m \<le> fold max ?ns m" by (rule fold_max_ge)
    from False ge show ?thesis
      unfolding e detect_loop_Cons counts_of_Cons
      by (auto simp add: Cons.IH mx pick_Cons)
  qed
qed

lemma detect_refines: "detectCategory text = detectCategory_spec text"
  by (simp add: detectCategory_def detectCategory_spec_def detect_loop_spec Let_def
     category_counts_def greatest_count_def counts_of_def pick_def)

lemma category_counts_fst:
  "fst ` set (category_counts text) = {TECHNICAL, BILLING, ACCOUNT, FEATURE_REQUEST, BUG_REPORT}"
  by (simp add: category_counts_def CATEGORY_PATTERNS_def)

lemma detect_general_iff:
  "(detectCategory text = GENERAL) = (greatest_count (category_counts text) = 0)"
proof (cases "greatest_count (category_counts text) = 0")
  case True
  then show ?thesis by (simp add: detect_refines detectCategory_spec_def)
next
  case False
  let ?cs = "category_counts text"
  from False fold_max_mem[of "map snd ?cs" 0]
  have mem: "greatest_count ?cs \<in> snd ` set ?cs"
    by (auto simp: greatest_count_def)
  have "detectCategory text = pick (greatest_count ?cs) ?cs GENERAL"
    using False by (simp add: detect_refines detectCategory_spec_def pick_def Let_def)
  also have "\<dots> \<in> fst ` set ?cs" using mem by (rule pick_in)
  finally have "detectCategory text \<noteq> GENERAL"
    unfolding category_counts_fst by auto
  with False show ?thesis by simp
qed

lemma technical_count_le:
  "count_matches (toLowerCase text) (patterns_of TECHNICAL) \<le> greatest_count (category_counts text)"
proof -
  have "count_matches (toLowerCase text) (patterns_of TECHNICAL)
          \<in> set (map snd (category_counts text))"
    by (simp add: category_counts_def CATEGORY_PATTERNS_def patterns_of_def)
  then show ?thesis unfolding greatest_count_def by (rule fold_max_ge_elem)
qed

text \<open>
  Claim C7. \<^verbatim>\<open>detectCategory\<close> reads nothing but its argument and the constant keyword table,
  so it is a function of the text alone. For every text it returns what the specification
  describes: the earliest declared of the categories whose count of matching keywords is the
  greatest, and GENERAL when no keyword of any category occurs in the text; it returns
  GENERAL only then; and a text in which a keyword of the technical list occurs is never
  classified GENERAL.
\<close>

theorem detectCategory_greatest_count:
  "detectCategory text = detectCategory_spec text
   \<and> ((detectCategory text = GENERAL) = (greatest_count (category_counts text) = 0))
   \<and> ((\<exists>p \<in> set (patterns_of TECHNICAL). str_includes (toLowerCase text) p)
        \<longrightarrow> detectCategory text \<noteq> GENERAL)"
proof (intro conjI impI)
  show "detectCategory text = detectCategory_spec text" by (rule detect_refines)
  show "(detectCategory text = GENERAL) = (greatest_count (category_counts text) = 0)"
    by (rule detect_general_iff)
  assume "\<exists>p \<in> set (patterns_of TECHNICAL). str_includes (toLowerCase text) p"
  then have "filter (str_includes (toLowerCase text)) (patterns_of TECHNICAL) \<noteq> []"
    by (auto simp: filter_empty_conv)
  then have "0 < count_matches (toLowerCase text) (patterns_of TECHNICAL)"
    by (simp add: count_matches_def)
  with technical_count_le[of "text"] have "greatest_count (category_counts text) \<noteq> 0" by simp
  then show "detectCategory text \<noteq> GENERAL" by (simp add: detect_general_iff)
qed

theorem detectCategory_greatest_count_witness:
  "(\<exists>p \<in> set (patterns_of TECHNICAL). str_includes (toLowerCase ''The page is SLOW and then a timeout'') p)
   \<and> detectCategory_spec ''The page is SLOW and then a timeout'' = TECHNICAL
   \<and> detectCategory ''The page is SLOW and then a timeout'' = TECHNICAL
   \<and> detectCategory ''The page is SLOW and then a timeout'' \<noteq> GENERAL"
proof -
  have h: "\<exists>p \<in> set (patterns_of TECHNICAL). str_includes (toLowerCase ''The page is SLOW and then a timeout'') p"
    by code_simp
  have s: "detectCategory_spec ''The page is SLOW and then a timeout'' = TECHNICAL"
    by code_simp
  from h s detectCategory_greatest_count[of "''The page is SLOW and then a timeout''"]
  show ?thesis by simp
qed

section \<open>How a call runs\<close>

text \<open>\<^verbatim>\<open>split\<close> always returns a first part, so the \<^verbatim>\<open>[0]\<close> of the issue title reads inside
  the array.\<close>

lemma split_on_nonempty: "split_on sep s \<noteq> []"
  by (induction s) (auto split: list.splits)

lemma process_returns:
  assumes "switch_step userInput (currentStep conversation) (collectedData conversation) h = Inr (out, h')"
  shows "processAIMessage now userInput conversation h = (build_result now conversation out, h')"
    and "\<not> throws now userInput conversation h"
  using assms by (simp_all add: processAIMessage_def try_block_def throws_def)

lemma process_catches:
  assumes "switch_step userInput (currentStep conversation) (collectedData conversation) h = Inl (e, h')"
  shows "processAIMessage now userInput conversation h = (catch_block conversation, h')"
    and "throws now userInput conversation h"
  using assms by (simp_all add: processAIMessage_def try_block_def throws_def)

text \<open>An exception leaves the store as the call found it: the throw comes before any write.\<close>

lemma thrown_store:
  assumes "switch_step userInput current data h = Inl (e, h')"
  shows "h' = h"
  using assms
  by (cases current)
     (auto simp: switch_step_def clarify_details_case_def Let_def alloc_def
           split: if_splits option.splits details.splits prod.splits)

text \<open>The step a handler leaves is TICKET_CREATED only after an affirmative final
  confirmation.\<close>

lemma next_ticket_created:
  assumes "switch_step userInput current data h = Inr ((data', aiResponse, next, suggested), h')"
  shows "(next = TICKET_CREATED) = (current = FINAL_CONFIRMATION \<and> isAffirmative userInput)"
proof (cases current)
  case GREETING
  with assms show ?thesis
    by (auto simp: switch_step_def greeting_case_def Let_def split: if_splits)
next
  case COLLECT_NAME
  with assms show ?thesis
    by (auto simp: switch_step_def collect_name_case_def Let_def split: if_splits)
next
  case COLLECT_ISSUE
  with assms show ?thesis
    by (auto simp: switch_step_def collect_issue_case_def Let_def split: if_splits)
next
  case CLARIFY_DETAILS
  with assms show ?thesis
    by (auto simp: switch_step_def clarify_details_case_def Let_def alloc_def
             split: if_splits option.splits details.splits prod.splits)
next
  case SUGGEST_CATEGORY
  with assms show ?thesis
    by (auto simp: switch_step_def suggest_category_case_def Let_def split: if_splits)
next
  case CONFIRM_CATEGORY
  with assms show ?thesis by (auto simp: switch_step_def default_case_def)
next
  case FINAL_CONFIRMATION
  with assms show ?thesis
    by (auto simp: switch_step_def final_confirmation_case_def split: if_splits)
next
  case TICKET_CREATED
  with assms show ?thesis by (auto simp: switch_step_def default_case_def)
next
  case ERROR
  with assms show ?thesis by (auto simp: switch_step_def default_case_def)
qed

lemma switch_cases:
  obtains (thrown) e h' where "switch_step userInput current data h = Inl (e, h')"
  | (finished) data' aiResponse "next" suggested h'
      where "switch_step userInput current data h = Inr ((data', aiResponse, next, suggested), h')"
proof (cases "switch_step userInput current data h")
  case (Inl a)
  then show ?thesis using thrown by (cases a) auto
next
  case (Inr b)
  then show ?thesis using finished by (cases b) auto
qed

lemma process_default:
  assumes "currentStep conversation = CONFIRM_CATEGORY \<or> currentStep conversation = TICKET_CREATED
           \<or> currentStep conversation = ERROR"
  shows "processAIMessage now userInput conversation h =
           (build_result now conversation (default_case (collectedData conversation)), h)"
  using assms by (auto simp: switch_step_def intro!: process_returns(1))

lemma process_final_confirmation:
  assumes "currentStep conversation = FINAL_CONFIRMATION"
  shows "processAIMessage now userInput conversation h =
           (build_result now conversation
              (final_confirmation_case userInput FINAL_CONFIRMATION (collectedData conversation)), h)"
  using assms by (auto simp: switch_step_def intro!: process_returns(1))

lemma process_suggest_category:
  assumes "currentStep conversation = SUGGEST_CATEGORY"
  shows "processAIMessage now userInput conversation h =
           (build_result now conversation
              (suggest_category_case userInput SUGGEST_CATEGORY (collectedData conversation)), h)"
  using assms by (auto simp: switch_step_def intro!: process_returns(1))

text \<open>Where SUGGEST_CATEGORY leads, for every input: never back to itself, to the email
  step when there is no email, and to CONFIRM_CATEGORY when there is one.\<close>

lemma suggest_category_next:
  assumes "currentStep conversation = SUGGEST_CATEGORY"
  shows "currentStep (returned_state now userInput conversation h) =
           (if truthy (userEmail (collectedData conversation)) then CONFIRM_CATEGORY
            else COLLECT_NAME)"
  by (simp add: process_suggest_category[OF assms] suggest_category_case_def Let_def)

text \<open>When a call takes the exception path: at CLARIFY_DETAILS, on an input that passes the
  step's check, when \<^verbatim>\<open>additionalDetails\<close> holds a truthy value that is no array. A
  conversation whose \<^verbatim>\<open>additionalDetails\<close> is absent or an array never does.\<close>

lemma throws_iff:
  "throws now userInput conversation h =
     (currentStep conversation = CLARIFY_DETAILS
      \<and> \<not> (length (cleaned_details userInput) < 5
             \<and> \<not> str_includes (toLowerCase userInput) ''skip'')
      \<and> (\<exists>v. additionalDetails (collectedData conversation) = Some (NotArray v)
               \<and> truthy_nonarray v))"
  by (cases "currentStep conversation")
     (auto simp: throws_def try_block_def switch_step_def clarify_details_case_def Let_def
           alloc_def details_truthy_def
           split: option.splits details.splits prod.splits)

text \<open>The store is written at CLARIFY_DETAILS only.\<close>

lemma store_unchanged_outside_clarify_details:
  assumes "currentStep conversation \<noteq> CLARIFY_DETAILS"
  shows "store_after now userInput conversation h = h"
  using assms
  by (cases "currentStep conversation")
     (simp_all add: processAIMessage_def try_block_def switch_step_def split: prod.splits)

text \<open>What CLARIFY_DETAILS does to the array of the caller's conversation, on every input
  that passes the step's check and is no skip.\<close>

lemma clarify_details_store:
  assumes "currentStep conversation = CLARIFY_DETAILS"
    and "additionalDetails (collectedData conversation) = Some (Array r)"
    and "\<not> str_includes (toLowerCase userInput) ''skip''"
    and "5 \<le> length (cleaned_details userInput)"
  shows "store_after now userInput conversation h
           = push h r (cleaned_details userInput)"
  using assms
  by (simp add: processAIMessage_def try_block_def switch_step_def clarify_details_case_def
        Let_def details_truthy_def)

section \<open>The claims\<close>

text \<open>
  Claim C1. From SUGGEST_CATEGORY the engine should go to the email step when no email is
  known and to FINAL_CONFIRMATION when one is. With an email the code does not: for the
  conversation below, at SUGGEST_CATEGORY with the email alice@example.com, the reply
  ``yes'' shows the final confirmation text and leaves the conversation at
  CONFIRM_CATEGORY, not at FINAL_CONFIRMATION; CONFIRM_CATEGORY has no case in the switch,
  so the user's next ``yes'' ends in ERROR. (The branch for a missing email sets the step
  it announces; this branch keeps what \<^verbatim>\<open>getNextStep\<close> gave for SUGGEST_CATEGORY.)
\<close>

theorem suggest_category_with_email_stops_at_confirm_category:
  "truthy (userEmail (collectedData (example_conversation SUGGEST_CATEGORY example_data)))
   \<and> currentStep (returned_state ''2024-05-01T10:00:00.000Z'' ''yes''
        (example_conversation SUGGEST_CATEGORY example_data) example_store) = CONFIRM_CATEGORY
   \<and> currentStep (returned_state ''2024-05-01T10:00:00.000Z'' ''yes''
        (example_conversation SUGGEST_CATEGORY example_data) example_store) \<noteq> FINAL_CONFIRMATION
   \<and> type_r (assistantResponse (returned ''2024-05-01T10:00:00.000Z'' ''yes''
        (example_conversation SUGGEST_CATEGORY example_data) example_store)) = confirmation
   \<and> currentStep (returned_state ''2024-05-01T10:01:00.000Z'' ''yes''
        (returned_state ''2024-05-01T10:00:00.000Z'' ''yes''
           (example_conversation SUGGEST_CATEGORY example_data) example_store)
        example_store) = ERROR"
  by code_simp

text \<open>
  Claim C2. The engine should leave the caller's conversation as it was. It does not: the
  copy \<^verbatim>\<open>{ ...collectedData }\<close> shares the \<^verbatim>\<open>additionalDetails\<close> array with the caller's object,
  and the CLARIFY_DETAILS case pushes onto it. For the conversation below, whose
  \<^verbatim>\<open>additionalDetails\<close> is the array at reference 0, that array holds one string before the
  call and two after it.
\<close>

theorem clarify_details_pushes_onto_callers_array:
  "additionalDetails (collectedData (example_conversation CLARIFY_DETAILS example_data))
     = Some (Array 0)
   \<and> array_at example_store 0 = [''it happens daily'']
   \<and> array_at (store_after ''2024-05-01T10:00:00.000Z'' ''it also fails on logout''
        (example_conversation CLARIFY_DETAILS example_data) example_store) 0
     = [''it happens daily'', ''it also fails on logout'']"
  by code_simp

text \<open>
  Claim C3. \<^verbatim>\<open>processAIMessage\<close> never throws to the caller: the exceptions of the model
  arise inside the \<^verbatim>\<open>try\<close> block only, and \<open>processAIMessage\<close> turns each of them into the
  result of the \<^verbatim>\<open>catch\<close> block, so every call has a result. Whenever the \<^verbatim>\<open>try\<close> block
  throws, the response is of type error, the returned conversation is at ERROR, each other
  field of it is the field of the input conversation, and the store is as the call found
  it.
\<close>

theorem exception_path_result:
  assumes "throws now userInput conversation h"
  shows "type_r (assistantResponse (returned now userInput conversation h)) = error
       \<and> currentStep (returned_state now userInput conversation h) = ERROR
       \<and> id_c (returned_state now userInput conversation h) = id_c conversation
       \<and> collectedData (returned_state now userInput conversation h) = collectedData conversation
       \<and> messages (returned_state now userInput conversation h) = messages conversation
       \<and> isComplete (returned_state now userInput conversation h) = isComplete conversation
       \<and> createdTicketId (returned_state now userInput conversation h) = createdTicketId conversation
       \<and> startedAt (returned_state now userInput conversation h) = startedAt conversation
       \<and> completedAt (returned_state now userInput conversation h) = completedAt conversation
       \<and> store_after now userInput conversation h = h"
proof (cases rule: switch_cases[of userInput "currentStep conversation" "collectedData conversation" h])
  case (thrown e h')
  from thrown have "h' = h" by (rule thrown_store)
  with process_catches(1)[OF thrown, of now] show ?thesis
    by (simp add: catch_block_def response_def)
next
  case (finished data' aiResponse "next" suggested h')
  from process_returns(2)[OF finished, of now] assms show ?thesis by simp
qed

theorem exception_path_result_witness:
  "throws ''2024-05-01T10:00:00.000Z'' ''it fails every time''
     (example_conversation CLARIFY_DETAILS malformed_data) example_store
   \<and> type_r (assistantResponse (returned ''2024-05-01T10:00:00.000Z'' ''it fails every time''
        (example_conversation CLARIFY_DETAILS malformed_data) example_store)) = error
   \<and> currentStep (returned_state ''2024-05-01T10:00:00.000Z'' ''it fails every time''
        (example_conversation CLARIFY_DETAILS malformed_data) example_store) = ERROR
   \<and> collectedData (returned_state ''2024-05-01T10:00:00.000Z'' ''it fails every time''
        (example_conversation CLARIFY_DETAILS malformed_data) example_store) = malformed_data
   \<and> store_after ''2024-05-01T10:00:00.000Z'' ''it fails every time''
        (example_conversation CLARIFY_DETAILS malformed_data) example_store = example_store"
proof -
  have t: "throws ''2024-05-01T10:00:00.000Z'' ''it fails every time''
             (example_conversation CLARIFY_DETAILS malformed_data) example_store"
    by code_simp
  from exception_path_result[OF t] t show ?thesis
    by (simp add: example_conversation_def)
qed

text \<open>
  Claim C4, as stated, fails in its second half: the flag is not monotonic. The completed
  conversation has \<^verbatim>\<open>isComplete\<close> true; one more call, on the default branch, returns it false.
\<close>

theorem isComplete_not_monotonic:
  "isComplete completed_conversation
   \<and> \<not> isComplete (returned_state ''2024-05-01T10:05:00.000Z'' ''thank you''
          completed_conversation example_store)"
  by code_simp

text \<open>
  Claim C4, amended. On a call that does not take the exception path, \<^verbatim>\<open>isComplete\<close> of the
  returned conversation is true exactly when its \<^verbatim>\<open>currentStep\<close> is TICKET_CREATED, which is
  exactly when the input conversation is at FINAL_CONFIRMATION and the input is
  affirmative: the flag is computed anew from the step and does not depend on the flag of
  the input. On the exception path the flag is the input's and the step is ERROR.
\<close>

theorem isComplete_recomputed:
  "(\<not> throws now userInput conversation h \<longrightarrow>
      isComplete (returned_state now userInput conversation h)
        = (currentStep (returned_state now userInput conversation h) = TICKET_CREATED)
    \<and> isComplete (returned_state now userInput conversation h)
        = (currentStep conversation = FINAL_CONFIRMATION \<and> isAffirmative userInput))
   \<and> (throws now userInput conversation h \<longrightarrow>
      isComplete (returned_state now userInput conversation h) = isComplete conversation
    \<and> currentStep (returned_state now userInput conversation h) = ERROR)"
proof (cases rule: switch_cases[of userInput "currentStep conversation" "collectedData conversation" h])
  case (thrown e h')
  from process_catches[OF thrown, of now] show ?thesis
    by (simp add: catch_block_def)
next
  case (finished data' aiResponse "next" suggested h')
  from next_ticket_created[OF finished] process_returns[OF finished, of now] show ?thesis
    by simp
qed

theorem isComplete_recomputed_witness:
  "\<not> throws ''2024-05-01T10:00:00.000Z'' ''yes''
       (example_conversation FINAL_CONFIRMATION example_data) example_store
   \<and> isAffirmative ''yes''
   \<and> isComplete (returned_state ''2024-05-01T10:00:00.000Z'' ''yes''
        (example_conversation FINAL_CONFIRMATION example_data) example_store)
   \<and> currentStep (returned_state ''2024-05-01T10:00:00.000Z'' ''yes''
        (example_conversation FINAL_CONFIRMATION example_data) example_store) = TICKET_CREATED
   \<and> throws ''2024-05-01T10:00:00.000Z'' ''it fails every time''
        (example_conversation CLARIFY_DETAILS malformed_data) example_store
   \<and> \<not> isComplete (returned_state ''2024-05-01T10:00:00.000Z'' ''it fails every time''
        (example_conversation CLARIFY_DETAILS malformed_data) example_store)
   \<and> currentStep (returned_state ''2024-05-01T10:00:00.000Z'' ''it fails every time''
        (example_conversation CLARIFY_DETAILS malformed_data) example_store) = ERROR"
proof -
  have n: "\<not> throws ''2024-05-01T10:00:00.000Z'' ''yes''
              (example_conversation FINAL_CONFIRMATION example_data) example_store"
    by code_simp
  have a: "isAffirmative ''yes''"
    by code_simp
  have t: "throws ''2024-05-01T10:00:00.000Z'' ''it fails every time''
             (example_conversation CLARIFY_DETAILS malformed_data) example_store"
    by code_simp
  have f: "currentStep (example_conversation FINAL_CONFIRMATION example_data) = FINAL_CONFIRMATION"
    by (simp add: example_conversation_def)
  have i: "\<not> isComplete (example_conversation CLARIFY_DETAILS malformed_data)"
    by (simp add: example_conversation_def)
  note yes = isComplete_recomputed[of "''2024-05-01T10:00:00.000Z''" "''yes''"
      "example_conversation FINAL_CONFIRMATION example_data" example_store]
  note bad = isComplete_recomputed[of "''2024-05-01T10:00:00.000Z''" "''it fails every time''"
      "example_conversation CLARIFY_DETAILS malformed_data" example_store]
  from yes n f a
  have y: "isComplete (returned_state ''2024-05-01T10:00:00.000Z'' ''yes''
             (example_conversation FINAL_CONFIRMATION example_data) example_store)
         \<and> currentStep (returned_state ''2024-05-01T10:00:00.000Z'' ''yes''
             (example_conversation FINAL_CONFIRMATION example_data) example_store) = TICKET_CREATED"
    by blast
  from bad t i
  have b: "\<not> isComplete (returned_state ''2024-05-01T10:00:00.000Z'' ''it fails every time''
             (example_conversation CLARIFY_DETAILS malformed_data) example_store)
         \<and> currentStep (returned_state ''2024-05-01T10:00:00.000Z'' ''it fails every time''
             (example_conversation CLARIFY_DETAILS malformed_data) example_store) = ERROR"
    by blast
  from n a t y b show ?thesis by blast
qed

text \<open>
  Claim C5, as stated, fails for \<^verbatim>\<open>completedAt\<close>: the completed conversation has it set, and
  one more call, which does not take the exception path, returns it absent.
\<close>

theorem completedAt_overwritten:
  "completedAt completed_conversation = Some ''2024-05-01T10:00:00.000Z''
   \<and> \<not> throws ''2024-05-01T10:05:00.000Z'' ''thank you'' completed_conversation example_store
   \<and> completedAt (returned_state ''2024-05-01T10:05:00.000Z'' ''thank you''
        completed_conversation example_store) = None"
  by code_simp

text \<open>
  Claim C5, amended. On a call that does not take the exception path, \<^verbatim>\<open>createdTicketId\<close> and
  \<^verbatim>\<open>startedAt\<close> of the returned conversation are those of the input. \<^verbatim>\<open>completedAt\<close> is
  written on every such call, whatever the input held: the time of the call when the
  returned step is TICKET_CREATED, absent otherwise.
\<close>

theorem lifecycle_markers:
  assumes "\<not> throws now userInput conversation h"
  shows "createdTicketId (returned_state now userInput conversation h) = createdTicketId conversation
       \<and> startedAt (returned_state now userInput conversation h) = startedAt conversation
       \<and> completedAt (returned_state now userInput conversation h)
           = (if currentStep (returned_state now userInput conversation h) = TICKET_CREATED
              then Some now else None)"
proof (cases rule: switch_cases[of userInput "currentStep conversation" "collectedData conversation" h])
  case (thrown e h')
  from process_catches(2)[OF thrown, of now] assms show ?thesis by simp
next
  case (finished data' aiResponse "next" suggested h')
  from process_returns(1)[OF finished, of now] show ?thesis by simp
qed

theorem lifecycle_markers_witness:
  "\<not> throws ''2024-05-01T10:05:00.000Z'' ''thank you'' completed_conversation example_store
   \<and> createdTicketId (returned_state ''2024-05-01T10:05:00.000Z'' ''thank you''
        completed_conversation example_store) = Some ''t-1001''
   \<and> startedAt (returned_state ''2024-05-01T10:05:00.000Z'' ''thank you''
        completed_conversation example_store) = ''2024-05-01T09:58:00.000Z''
   \<and> currentStep (returned_state ''2024-05-01T10:05:00.000Z'' ''thank you''
        completed_conversation example_store) = ERROR
   \<and> completedAt (returned_state ''2024-05-01T10:05:00.000Z'' ''thank you''
        completed_conversation example_store) = None"
proof -
  have n: "\<not> throws ''2024-05-01T10:05:00.000Z'' ''thank you'' completed_conversation
              example_store"
    by code_simp
  have s: "currentStep (returned_state ''2024-05-01T10:05:00.000Z'' ''thank you''
             completed_conversation example_store) = ERROR"
    by code_simp
  from lifecycle_markers[OF n] n s show ?thesis
    by (simp add: completed_conversation_def example_conversation_def)
qed

subsection \<open>The steps of a complete conversation\<close>

lemma greeting_plain_name:
  assumes "currentStep c = GREETING" "potentialName (collectedData c) = None"
      "\<not> is_sentence nm" "2 \<le> length (cleaned_name nm)"
  shows "currentStep (returned_state now nm c h) = COLLECT_ISSUE
       \<and> userEmail (collectedData (returned_state now nm c h)) = userEmail (collectedData c)
       \<and> additionalDetails (collectedData (returned_state now nm c h))
           = additionalDetails (collectedData c)"
proof -
  have "processAIMessage now nm c h
          = (build_result now c (greeting_case nm GREETING (collectedData c)), h)"
    using assms(1) by (auto simp: switch_step_def intro!: process_returns(1))
  moreover have "extractNameFromInput nm
          = \<lparr>name = cleaned_name nm, isSentence = False, needsClarification = False\<rparr>"
    using assms(3,4) by (simp add: extractNameFromInput_def Let_def)
  ultimately show ?thesis using assms(2)
    by (simp add: greeting_case_def Let_def truthy_def)
qed

lemma collect_issue_long:
  assumes "currentStep c = COLLECT_ISSUE" "10 \<le> length (cleaned_issue issue)"
  shows "currentStep (returned_state now issue c h) = CLARIFY_DETAILS
       \<and> userEmail (collectedData (returned_state now issue c h)) = userEmail (collectedData c)
       \<and> additionalDetails (collectedData (returned_state now issue c h))
           = additionalDetails (collectedData c)"
proof -
  have "processAIMessage now issue c h
          = (build_result now c (collect_issue_case issue COLLECT_ISSUE (collectedData c)), h)"
    using assms(1) by (auto simp: switch_step_def intro!: process_returns(1))
  then show ?thesis using assms(2)
    by (simp add: collect_issue_case_def Let_def)
qed

lemma skip_includes: "str_includes (toLowerCase ''skip'') ''skip''"
  by code_simp

lemma clarify_skip:
  assumes "currentStep c = CLARIFY_DETAILS" "additionalDetails (collectedData c) = None"
  shows "currentStep (returned_state now ''skip'' c h) = SUGGEST_CATEGORY
       \<and> userEmail (collectedData (returned_state now ''skip'' c h)) = userEmail (collectedData c)"
proof -
  have "\<exists>out h'. switch_step ''skip'' (currentStep c) (collectedData c) h = Inr (out, h')
          \<and> fst (snd (snd out)) = SUGGEST_CATEGORY
          \<and> userEmail (fst out) = userEmail (collectedData c)"
    using assms skip_includes
    by (simp add: switch_step_def clarify_details_case_def Let_def details_truthy_def alloc_def)
  then obtain out h'
    where sw: "switch_step ''skip'' (currentStep c) (collectedData c) h = Inr (out, h')"
      and o: "fst (snd (snd out)) = SUGGEST_CATEGORY"
             "userEmail (fst out) = userEmail (collectedData c)"
    by blast
  obtain d r n s where out: "out = (d, r, n, s)" by (cases out)
  show ?thesis using o by (simp add: process_returns(1)[OF sw] out)
qed

lemma collect_email_valid:
  assumes "currentStep c = COLLECT_NAME" "emailRegex_test (cleaned_email email)"
  shows "currentStep (returned_state now email c h) = FINAL_CONFIRMATION"
proof -
  have "processAIMessage now email c h
          = (build_result now c (collect_name_case email COLLECT_NAME (collectedData c)), h)"
    using assms(1) by (auto simp: switch_step_def intro!: process_returns(1))
  then show ?thesis using assms(2)
    by (simp add: collect_name_case_def Let_def)
qed

lemma final_yes:
  assumes "currentStep c = FINAL_CONFIRMATION" "isAffirmative y"
  shows "currentStep (returned_state now y c h) = TICKET_CREATED
       \<and> isComplete (returned_state now y c h)"
  using assms(2)
  by (simp add: process_final_confirmation[OF assms(1)] final_confirmation_case_def)

text \<open>A call moves a conversation at most one place further on the way to a ticket, and
  so do the calls of a run; a name or a description that is too short once cleaned leaves
  the conversation where it is.\<close>

lemma step_rank_call:
  "step_rank (currentStep (returned_state now userInput conversation h))
     \<le> Suc (step_rank (currentStep conversation))"
proof (cases rule: switch_cases[of userInput "currentStep conversation" "collectedData conversation" h])
  case (thrown e h')
  from process_catches(1)[OF thrown, of now] show ?thesis
    by (simp add: catch_block_def)
next
  case (finished data' aiResponse "next" suggested h')
  have "step_rank next \<le> Suc (step_rank (currentStep conversation))"
  proof (cases "currentStep conversation")
    case GREETING
    with finished show ?thesis
      by (auto simp: switch_step_def greeting_case_def Let_def split: if_splits)
  next
    case COLLECT_NAME
    with finished show ?thesis
      by (auto simp: switch_step_def collect_name_case_def Let_def split: if_splits)
  next
    case COLLECT_ISSUE
    with finished show ?thesis
      by (auto simp: switch_step_def collect_issue_case_def Let_def split: if_splits)
  next
    case CLARIFY_DETAILS
    with finished show ?thesis
      by (auto simp: switch_step_def clarify_details_case_def Let_def alloc_def
               split: if_splits option.splits details.splits prod.splits)
  next
    case SUGGEST_CATEGORY
    with finished show ?thesis
      by (auto simp: switch_step_def suggest_category_case_def Let_def split: if_splits)
  next
    case CONFIRM_CATEGORY
    with finished show ?thesis by (auto simp: switch_step_def default_case_def)
  next
    case FINAL_CONFIRMATION
    with finished show ?thesis
      by (auto simp: switch_step_def final_confirmation_case_def split: if_splits)
  next
    case TICKET_CREATED
    with finished show ?thesis by (auto simp: switch_step_def default_case_def)
  next
    case ERROR
    with finished show ?thesis by (auto simp: switch_step_def default_case_def)
  qed
  with process_returns(1)[OF finished, of now] show ?thesis by simp
qed

lemma step_rank_turn:
  "step_rank (currentStep (fst (turn call s))) \<le> Suc (step_rank (currentStep (fst s)))"
  by (cases call; cases s) (simp add: turn_def step_rank_call)

lemma successive_calls_empty: "(successive_calls calls s = []) = (calls = [])"
  by (cases calls) simp_all

lemma step_rank_successive_calls:
  "calls \<noteq> [] \<Longrightarrow>
     step_rank (currentStep (fst (last (successive_calls calls s))))
       \<le> step_rank (currentStep (fst s)) + length calls"
proof (induction calls arbitrary: s)
  case Nil
  then show ?case by simp
next
  case (Cons call calls)
  show ?case
  proof (cases "calls = []")
    case True
    then show ?thesis using step_rank_turn[of call s] by simp
  next
    case False
    from Cons.IH[OF False, of "turn call s"] step_rank_turn[of call s] False
    show ?thesis by (simp add: successive_calls_empty)
  qed
qed

lemma greeting_short_name:
  assumes "currentStep c = GREETING" "\<not> is_sentence nm" "length (cleaned_name nm) < 2"
  shows "currentStep (returned_state now nm c h) = GREETING"
proof -
  have "processAIMessage now nm c h
          = (build_result now c (greeting_case nm GREETING (collectedData c)), h)"
    using assms(1) by (auto simp: switch_step_def intro!: process_returns(1))
  moreover have "extractNameFromInput nm
          = \<lparr>name = cleaned_name nm, isSentence = False, needsClarification = True\<rparr>"
    using assms(2,3) by (simp add: extractNameFromInput_def Let_def)
  ultimately show ?thesis
    by (simp add: greeting_case_def Let_def)
qed

lemma collect_issue_short:
  assumes "currentStep c = COLLECT_ISSUE" "length (cleaned_issue issue) < 10"
  shows "currentStep (returned_state now issue c h) = COLLECT_ISSUE"
proof -
  have "processAIMessage now issue c h
          = (build_result now c (collect_issue_case issue COLLECT_ISSUE (collectedData c)), h)"
    using assms(1) by (auto simp: switch_step_def intro!: process_returns(1))
  then show ?thesis using assms(2)
    by (simp add: collect_issue_case_def Let_def)
qed

text \<open>
  Claim C6, as stated, fails: it counts the characters of the name and of the issue
  description as typed, and the steps count them after cleaning. The name of the first run
  is no sentence and has 2 characters, but the GREETING step removes its second one and
  asks again; the description of the second run has 10 characters, but 9 once its white
  space is collapsed, and the COLLECT_ISSUE step asks again. Every other input is as the
  claim wants it. A call moves a conversation at most one step further, so with one call
  spent neither run is at TICKET_CREATED after its six calls.
\<close>

theorem six_calls_raw_lengths_fall_short:
  "\<not> is_sentence [CHR ''L'', CHR 0xEA] \<and> 2 \<le> length [CHR ''L'', CHR 0xEA]
   \<and> 10 \<le> length ''My app crashes on login''
   \<and> \<not> is_sentence ''Alice'' \<and> 2 \<le> length ''Alice''
   \<and> 10 \<le> length ''no  signal''
   \<and> isAffirmative ''yes''
   \<and> emailRegex_test (cleaned_email ''alice@example.com'')
   \<and> currentStep (fst (hd
        (successive_calls short_name_calls (example_conversation GREETING empty_data, []))))
      = GREETING
   \<and> currentStep (fst (last
        (successive_calls short_name_calls (example_conversation GREETING empty_data, []))))
      \<noteq> TICKET_CREATED
   \<and> map (currentStep \<circ> fst) (take 2
        (successive_calls short_issue_calls (example_conversation GREETING empty_data, [])))
      = [COLLECT_ISSUE, COLLECT_ISSUE]
   \<and> currentStep (fst (last
        (successive_calls short_issue_calls (example_conversation GREETING empty_data, []))))
      \<noteq> TICKET_CREATED"
proof -
  let ?c0 = "example_conversation GREETING empty_data"
  let ?t1 = "''2024-05-01T10:00:00.000Z''"
  let ?t2 = "''2024-05-01T10:01:00.000Z''"
  let ?rest = "[(''2024-05-01T10:02:00.000Z'', ''skip''), (''2024-05-01T10:03:00.000Z'', ''yes''),
                (''2024-05-01T10:04:00.000Z'', ''alice@example.com''),
                (''2024-05-01T10:05:00.000Z'', ''yes'')]"
  have g: "currentStep ?c0 = GREETING" and p: "potentialName (collectedData ?c0) = None"
    by (simp_all add: example_conversation_def empty_data_def)
  have n1: "\<not> is_sentence [CHR ''L'', CHR 0xEA]" by code_simp
  have n2: "length (cleaned_name [CHR ''L'', CHR 0xEA]) < 2" by code_simp
  have a1: "\<not> is_sentence ''Alice''" by code_simp
  have a2: "2 \<le> length (cleaned_name ''Alice'')" by code_simp
  have i: "length (cleaned_issue ''no  signal'') < 10" by code_simp
  have y: "isAffirmative ''yes''" by code_simp
  have e: "emailRegex_test (cleaned_email ''alice@example.com'')" by code_simp
  let ?s1 = "turn (?t1, [CHR ''L'', CHR 0xEA]) (?c0, [])"
  have s1: "currentStep (fst ?s1) = GREETING"
    using greeting_short_name[OF g n1 n2] by (simp add: turn_def)
  have run1: "successive_calls short_name_calls (?c0, [])
                = ?s1 # successive_calls ((?t2, ''My app crashes on login'') # ?rest) ?s1"
    by (simp add: short_name_calls_def)
  have "step_rank (currentStep (fst (last
          (successive_calls ((?t2, ''My app crashes on login'') # ?rest) ?s1)))) \<le> 0 + 5"
    using step_rank_successive_calls[of "(?t2, ''My app crashes on login'') # ?rest" ?s1] s1
    by simp
  then have l1: "currentStep (fst (last (successive_calls short_name_calls (?c0, []))))
                   \<noteq> TICKET_CREATED"
    unfolding run1 by (auto simp: successive_calls_empty)
  have h1: "currentStep (fst (hd (successive_calls short_name_calls (?c0, [])))) = GREETING"
    unfolding run1 using s1 by simp
  let ?u1 = "turn (?t1, ''Alice'') (?c0, [])"
  let ?u2 = "turn (?t2, ''no  signal'') ?u1"
  have u1: "currentStep (fst ?u1) = COLLECT_ISSUE"
    using greeting_plain_name[OF g p a1 a2] by (simp add: turn_def)
  have u2: "currentStep (fst ?u2) = COLLECT_ISSUE"
    using collect_issue_short[OF _ i, of "fst ?u1" ?t2 "snd ?u1"] u1
    by (simp add: turn_def split: prod.splits)
  have run2: "successive_calls short_issue_calls (?c0, [])
                = ?u1 # ?u2 # successive_calls ?rest ?u2"
    by (simp add: short_issue_calls_def)
  have "step_rank (currentStep (fst (last (successive_calls ?rest ?u2)))) \<le> 1 + 4"
    using step_rank_successive_calls[of ?rest ?u2] u2 by simp
  then have l2: "currentStep (fst (last (successive_calls short_issue_calls (?c0, []))))
                   \<noteq> TICKET_CREATED"
    unfolding run2 by (auto simp: successive_calls_empty)
  have h2: "map (currentStep \<circ> fst) (take 2 (successive_calls short_issue_calls (?c0, [])))
              = [COLLECT_ISSUE, COLLECT_ISSUE]"
    unfolding run2 using u1 u2 by simp
  have len: "2 \<le> length [CHR ''L'', CHR 0xEA]" "10 \<le> length ''My app crashes on login''"
            "2 \<le> length ''Alice''" "10 \<le> length ''no  signal''"
    by simp_all
  from n1 a1 y e h1 l1 h2 l2 len show ?thesis by blast
qed

text \<open>
  Claim C6, amended. Start at GREETING with empty collected data, in any store. Six
  successive calls with: a name that is no sentence for the name extractor and has at least
  2 characters once cleaned as the GREETING step cleans it, an issue description of at
  least 10 characters once cleaned as the COLLECT_ISSUE step cleans it, ``skip'', an
  affirmative reply, an address the email validator accepts, and an affirmative reply,
  pass through COLLECT_ISSUE, CLARIFY_DETAILS, SUGGEST_CATEGORY, COLLECT_NAME and
  FINAL_CONFIRMATION and end, with the sixth call and not before, at TICKET_CREATED with
  \<^verbatim>\<open>isComplete\<close> true.
\<close>

theorem six_calls_reach_ticket_created:
  assumes "currentStep c0 = GREETING" and "collectedData c0 = empty_data"
    and "\<not> is_sentence nm" and "2 \<le> length (cleaned_name nm)"
    and "10 \<le> length (cleaned_issue issue)"
    and "isAffirmative yes1"
    and "emailRegex_test (cleaned_email email)"
    and "isAffirmative yes2"
  shows "map (currentStep \<circ> fst)
           (successive_calls
              [(t1, nm), (t2, issue), (t3, ''skip''), (t4, yes1), (t5, email), (t6, yes2)]
              (c0, h0))
         = [COLLECT_ISSUE, CLARIFY_DETAILS, SUGGEST_CATEGORY, COLLECT_NAME, FINAL_CONFIRMATION,
            TICKET_CREATED]
       \<and> isComplete (fst (last
           (successive_calls
              [(t1, nm), (t2, issue), (t3, ''skip''), (t4, yes1), (t5, email), (t6, yes2)]
              (c0, h0))))"
proof -
  define c1 where "c1 = returned_state t1 nm c0 h0"
  define h1 where "h1 = store_after t1 nm c0 h0"
  define c2 where "c2 = returned_state t2 issue c1 h1"
  define h2 where "h2 = store_after t2 issue c1 h1"
  define c3 where "c3 = returned_state t3 ''skip'' c2 h2"
  define h3 where "h3 = store_after t3 ''skip'' c2 h2"
  define c4 where "c4 = returned_state t4 yes1 c3 h3"
  define h4 where "h4 = store_after t4 yes1 c3 h3"
  define c5 where "c5 = returned_state t5 email c4 h4"
  define h5 where "h5 = store_after t5 email c4 h4"
  define c6 where "c6 = returned_state t6 yes2 c5 h5"
  define h6 where "h6 = store_after t6 yes2 c5 h5"
  have run: "successive_calls
               [(t1, nm), (t2, issue), (t3, ''skip''), (t4, yes1), (t5, email), (t6, yes2)]
               (c0, h0)
             = [(c1, h1), (c2, h2), (c3, h3), (c4, h4), (c5, h5), (c6, h6)]"
    by (simp add: turn_def c1_def h1_def c2_def h2_def c3_def h3_def c4_def h4_def
          c5_def h5_def c6_def h6_def)
  have e0: "potentialName (collectedData c0) = None" "userEmail (collectedData c0) = None"
       "additionalDetails (collectedData c0) = None"
    using assms(2) by (simp_all add: empty_data_def)
  have s1: "currentStep c1 = COLLECT_ISSUE" "userEmail (collectedData c1) = None"
           "additionalDetails (collectedData c1) = None"
    using greeting_plain_name[OF assms(1) e0(1) assms(3,4), of t1 h0] e0
    by (simp_all add: c1_def)
  have s2: "currentStep c2 = CLARIFY_DETAILS" "userEmail (collectedData c2) = None"
           "additionalDetails (collectedData c2) = None"
    using collect_issue_long[OF s1(1) assms(5), of t2 h1] s1 by (simp_all add: c2_def)
  have s3: "currentStep c3 = SUGGEST_CATEGORY" "userEmail (collectedData c3) = None"
    using clarify_skip[OF s2(1) s2(3), of t3 h2] s2 by (simp_all add: c3_def)
  have s4: "currentStep c4 = COLLECT_NAME"
    using suggest_category_next[OF s3(1), of t4 yes1 h3] s3(2) by (simp add: c4_def truthy_def)
  have s5: "currentStep c5 = FINAL_CONFIRMATION"
    using collect_email_valid[OF s4 assms(7), of t5 h4] by (simp add: c5_def)
  have s6: "currentStep c6 = TICKET_CREATED" "isComplete c6"
    using final_yes[OF s5 assms(8), of t6 h5] by (simp_all add: c6_def)
  show ?thesis unfolding run using s1 s2 s3 s4 s5 s6 by simp
qed

theorem six_calls_reach_ticket_created_witness:
  "currentStep (example_conversation GREETING empty_data) = GREETING
   \<and> collectedData (example_conversation GREETING empty_data) = empty_data
   \<and> \<not> is_sentence ''Alice'' \<and> 2 \<le> length (cleaned_name ''Alice'')
   \<and> 10 \<le> length (cleaned_issue ''My app crashes on login'')
   \<and> isAffirmative ''yes''
   \<and> emailRegex_test (cleaned_email ''Alice@Example.com'')
   \<and> isAffirmative ''Yes, create the ticket''
   \<and> map (currentStep \<circ> fst)
        (successive_calls
           [(''2024-05-01T10:00:00.000Z'', ''Alice''),
            (''2024-05-01T10:01:00.000Z'', ''My app crashes on login''),
            (''2024-05-01T10:02:00.000Z'', ''skip''),
            (''2024-05-01T10:03:00.000Z'', ''yes''),
            (''2024-05-01T10:04:00.000Z'', ''Alice@Example.com''),
            (''2024-05-01T10:05:00.000Z'', ''Yes, create the ticket'')]
           (example_conversation GREETING empty_data, []))
      = [COLLECT_ISSUE, CLARIFY_DETAILS, SUGGEST_CATEGORY, COLLECT_NAME, FINAL_CONFIRMATION,
         TICKET_CREATED]
   \<and> isComplete (fst (last
        (successive_calls
           [(''2024-05-01T10:00:00.000Z'', ''Alice''),
            (''2024-05-01T10:01:00.000Z'', ''My app crashes on login''),
            (''2024-05-01T10:02:00.000Z'', ''skip''),
            (''2024-05-01T10:03:00.000Z'', ''yes''),
            (''2024-05-01T10:04:00.000Z'', ''Alice@Example.com''),
            (''2024-05-01T10:05:00.000Z'', ''Yes, create the ticket'')]
           (example_conversation GREETING empty_data, []))))"
proof -
  have g: "currentStep (example_conversation GREETING empty_data) = GREETING"
    by (simp add: example_conversation_def)
  have d: "collectedData (example_conversation GREETING empty_data) = empty_data"
    by (simp add: example_conversation_def)
  have n1: "\<not> is_sentence ''Alice''" by code_simp
  have n2: "2 \<le> length (cleaned_name ''Alice'')" by code_simp
  have i: "10 \<le> length (cleaned_issue ''My app crashes on login'')" by code_simp
  have a1: "isAffirmative ''yes''" by code_simp
  have e: "emailRegex_test (cleaned_email ''Alice@Example.com'')" by code_simp
  have a2: "isAffirmative ''Yes, create the ticket''" by code_simp
  note r = six_calls_reach_ticket_created[OF g d n1 n2 i a1 e a2,
      of "''2024-05-01T10:00:00.000Z''" "''2024-05-01T10:01:00.000Z''"
         "''2024-05-01T10:02:00.000Z''" "''2024-05-01T10:03:00.000Z''"
         "''2024-05-01T10:04:00.000Z''" "''2024-05-01T10:05:00.000Z''" "[]"]
  from g d n1 n2 i a1 e a2 r show ?thesis by blast
qed

text \<open>
  Claim C8. The name extractor on the two inputs of the specification: ``John Smith'' is a
  name as it stands; from the sentence it takes ``John'' and asks for confirmation.
\<close>

theorem extractNameFromInput_examples:
  "extractNameFromInput ''John Smith''
     = \<lparr>name = ''John Smith'', isSentence = False, needsClarification = False\<rparr>
   \<and> extractNameFromInput ''Hi, my name is John and I need help''
     = \<lparr>name = ''John'', isSentence = True, needsClarification = True\<rparr>"
  by code_simp

text \<open>
  Claim C9. At FINAL_CONFIRMATION, an input that is not affirmative sends the conversation
  back to GREETING with the collected data (every field of the record, and the store its
  details live in) as they were; an affirmative input moves it to TICKET_CREATED, and the
  response carries the metadata \<^verbatim>\<open>{ shouldCreateTicket: true }\<close>.
\<close>

theorem final_confirmation_decline_or_create:
  assumes "currentStep conversation = FINAL_CONFIRMATION"
  shows "(\<not> isAffirmative userInput \<longrightarrow>
            currentStep (returned_state now userInput conversation h) = GREETING
          \<and> collectedData (returned_state now userInput conversation h)
              = collectedData conversation
          \<and> store_after now userInput conversation h = h)
       \<and> (isAffirmative userInput \<longrightarrow>
            currentStep (returned_state now userInput conversation h) = TICKET_CREATED
          \<and> metadata (assistantResponse (returned now userInput conversation h))
              = Some [(''shouldCreateTicket'', JBool True)])"
  by (simp add: process_final_confirmation[OF assms] final_confirmation_case_def response_def)

theorem final_confirmation_decline_or_create_witness:
  "currentStep (example_conversation FINAL_CONFIRMATION example_data) = FINAL_CONFIRMATION
   \<and> \<not> isAffirmative ''no, the email is wrong''
   \<and> currentStep (returned_state ''2024-05-01T10:00:00.000Z'' ''no, the email is wrong''
        (example_conversation FINAL_CONFIRMATION example_data) example_store) = GREETING
   \<and> collectedData (returned_state ''2024-05-01T10:00:00.000Z'' ''no, the email is wrong''
        (example_conversation FINAL_CONFIRMATION example_data) example_store) = example_data
   \<and> store_after ''2024-05-01T10:00:00.000Z'' ''no, the email is wrong''
        (example_conversation FINAL_CONFIRMATION example_data) example_store = example_store
   \<and> isAffirmative ''Yes, create the ticket''
   \<and> currentStep (returned_state ''2024-05-01T10:00:00.000Z'' ''Yes, create the ticket''
        (example_conversation FINAL_CONFIRMATION example_data) example_store) = TICKET_CREATED
   \<and> metadata (assistantResponse (returned ''2024-05-01T10:00:00.000Z'' ''Yes, create the ticket''
        (example_conversation FINAL_CONFIRMATION example_data) example_store))
      = Some [(''shouldCreateTicket'', JBool True)]"
proof -
  have f: "currentStep (example_conversation FINAL_CONFIRMATION example_data) = FINAL_CONFIRMATION"
    by (simp add: example_conversation_def)
  have d: "collectedData (example_conversation FINAL_CONFIRMATION example_data) = example_data"
    by (simp add: example_conversation_def)
  have n: "\<not> isAffirmative ''no, the email is wrong''" by code_simp
  have a: "isAffirmative ''Yes, create the ticket''" by code_simp
  note no = final_confirmation_decline_or_create[OF f, of "''no, the email is wrong''"
      "''2024-05-01T10:00:00.000Z''" example_store]
  note yes = final_confirmation_decline_or_create[OF f, of "''Yes, create the ticket''"
      "''2024-05-01T10:00:00.000Z''" example_store]
  from no n d
  have r1: "currentStep (returned_state ''2024-05-01T10:00:00.000Z'' ''no, the email is wrong''
        (example_conversation FINAL_CONFIRMATION example_data) example_store) = GREETING
   \<and> collectedData (returned_state ''2024-05-01T10:00:00.000Z'' ''no, the email is wrong''
        (example_conversation FINAL_CONFIRMATION example_data) example_store) = example_data
   \<and> store_after ''2024-05-01T10:00:00.000Z'' ''no, the email is wrong''
        (example_conversation FINAL_CONFIRMATION example_data) example_store = example_store"
    by simp
  from yes a
  have r2: "currentStep (returned_state ''2024-05-01T10:00:00.000Z'' ''Yes, create the ticket''
        (example_conversation FINAL_CONFIRMATION example_data) example_store) = TICKET_CREATED
   \<and> metadata (assistantResponse (returned ''2024-05-01T10:00:00.000Z'' ''Yes, create the ticket''
        (example_conversation FINAL_CONFIRMATION example_data) example_store))
      = Some [(''shouldCreateTicket'', JBool True)]"
    by simp
  from f n a r1 r2 show ?thesis by blast
qed

text \<open>
  Claim C10. CONFIRM_CATEGORY, TICKET_CREATED and ERROR are members of the step enumeration
  and have no case in the switch: for every input, a conversation at one of them gets the
  default branch, a response of type error and the step ERROR, and the store stays as it
  is. So a conversation at TICKET_CREATED leaves TICKET_CREATED with the next call.
\<close>

theorem default_branch_steps:
  assumes "currentStep conversation = CONFIRM_CATEGORY
           \<or> currentStep conversation = TICKET_CREATED
           \<or> currentStep conversation = ERROR"
  shows "type_r (assistantResponse (returned now userInput conversation h)) = error
       \<and> currentStep (returned_state now userInput conversation h) = ERROR
       \<and> store_after now userInput conversation h = h"
  by (simp add: process_default[OF assms] default_case_def response_def)

theorem default_branch_steps_witness:
  "currentStep completed_conversation = TICKET_CREATED
   \<and> type_r (assistantResponse (returned ''2024-05-01T10:05:00.000Z'' ''thank you''
        completed_conversation example_store)) = error
   \<and> currentStep (returned_state ''2024-05-01T10:05:00.000Z'' ''thank you''
        completed_conversation example_store) = ERROR
   \<and> currentStep (returned_state ''2024-05-01T10:05:00.000Z'' ''yes''
        (example_conversation CONFIRM_CATEGORY example_data) example_store) = ERROR
   \<and> currentStep (returned_state ''2024-05-01T10:05:00.000Z'' ''hello again''
        (example_conversation ERROR example_data) example_store) = ERROR"
proof -
  have t: "currentStep completed_conversation = TICKET_CREATED"
    by (simp add: completed_conversation_def example_conversation_def)
  have c: "currentStep (example_conversation CONFIRM_CATEGORY example_data) = CONFIRM_CATEGORY"
    by (simp add: example_conversation_def)
  have e: "currentStep (example_conversation ERROR example_data) = ERROR"
    by (simp add: example_conversation_def)
  from t have t': "currentStep completed_conversation = CONFIRM_CATEGORY
           \<or> currentStep completed_conversation = TICKET_CREATED
           \<or> currentStep completed_conversation = ERROR" by simp
  from c have c': "currentStep (example_conversation CONFIRM_CATEGORY example_data) = CONFIRM_CATEGORY
           \<or> currentStep (example_conversation CONFIRM_CATEGORY example_data) = TICKET_CREATED
           \<or> currentStep (example_conversation CONFIRM_CATEGORY example_data) = ERROR" by simp
  from e have e': "currentStep (example_conversation ERROR example_data) = CONFIRM_CATEGORY
           \<or> currentStep (example_conversation ERROR example_data) = TICKET_CREATED
           \<or> currentStep (example_conversation ERROR example_data) = ERROR" by simp
  from t default_branch_steps[OF t', of "''2024-05-01T10:05:00.000Z''" "''thank you''" example_store]
       default_branch_steps[OF c', of "''2024-05-01T10:05:00.000Z''" "''yes''" example_store]
       default_branch_steps[OF e', of "''2024-05-01T10:05:00.000Z''" "''hello again''" example_store]
  show ?thesis by blast
qed

end
